theory Spec2Isabelle
  imports Main "HOL-Library.AList" "HOL-Library.Multiset" "HOL-Library.Sublist"
begin

text \<open>
  A model of the schema comparison of \<^verbatim>\<open>SchemaChecker\<close>: the catalog reads, the column
  comparator, the walk of \<^verbatim>\<open>checkAndReport\<close>, the statements it proposes, and the two
  \<^verbatim>\<open>main\<close> functions, followed by the properties the specification claims of them.
\<close>

section \<open>Data model\<close>

text \<open>
  The rows of \<^verbatim>\<open>getTableColumns\<close>: one object per column, with the aliases of the
  \<^verbatim>\<open>SELECT\<close> as its properties. \<^verbatim>\<open>COLUMN_DEFAULT\<close> is \<^verbatim>\<open>null\<close> or a string, the three
  numeric properties are \<^verbatim>\<open>null\<close> or a number; the others are strings. Strings are
  byte lists (UTF-8); the code only concatenates and compares them.
\<close>

record column =
  name :: string
  type :: string
  nullable :: string
  defaultValue :: "string option"
  extra :: string
  keyType :: string
  maxLength :: "int option"
  numericPrecision :: "int option"
  numericScale :: "int option"

text \<open>One row of \<^verbatim>\<open>SHOW INDEX\<close>, with the three properties the code reads.\<close>

record index_row =
  Key_name :: string
  Column_name :: string
  Non_unique :: int

text \<open>The object \<^verbatim>\<open>getTableIndexes\<close> builds for each index name.\<close>

record index_descriptor =
  name :: string
  columns :: "string list"
  unique :: bool
  table :: string

text \<open>The entries \<^verbatim>\<open>{ table, column }\<close> and \<^verbatim>\<open>{ table, column, differences }\<close>.\<close>

record missing_column =
  table :: string
  column :: column

record different_column =
  table :: string
  column :: column
  differences :: "string list"

text \<open>The object \<^verbatim>\<open>checkAndReport\<close> returns.\<close>

record comparison_result =
  isInSync :: bool
  missingTables :: "string list"
  missingColumns :: "missing_column list"
  differentColumns :: "different_column list"
  missingIndexes :: "index_descriptor list"

section \<open>Column comparison\<close>

text \<open>The arrow U+2192 of the difference notes, in UTF-8, and the apostrophe.\<close>

definition arrow :: string where
  "arrow = [CHR 0xE2, CHR 0x86, CHR 0x92]"

definition apos :: string where
  "apos = [CHR 0x27]"

text \<open>
  \<^verbatim>\<open>compareColumns(devColumn, mainColumn)\<close>: four tests in sequence, each pushing
  at most one note onto \<^verbatim>\<open>differences\<close>.
\<close>

definition compareColumns :: "column \<Rightarrow> column \<Rightarrow> string list" where
  "compareColumns devColumn mainColumn =
     (let differences = [];
          differences =
            (if column.type devColumn \<noteq> column.type mainColumn
             then differences @
               [''type: '' @ apos @ column.type mainColumn @ apos @ '' '' @ arrow @ '' '' @
                apos @ column.type devColumn @ apos]
             else differences);
          differences =
            (if nullable devColumn \<noteq> nullable mainColumn
             then differences @
               [''nullable: '' @ nullable mainColumn @ '' '' @ arrow @ '' '' @ nullable devColumn]
             else differences);
          devDefault = (case defaultValue devColumn of None \<Rightarrow> ''NULL'' | Some d \<Rightarrow> d);
          mainDefault = (case defaultValue mainColumn of None \<Rightarrow> ''NULL'' | Some d \<Rightarrow> d);
          differences =
            (if devDefault \<noteq> mainDefault
             then differences @
               [''default: '' @ mainDefault @ '' '' @ arrow @ '' '' @ devDefault]
             else differences);
          differences =
            (if extra devColumn \<noteq> extra mainColumn
             then differences @
               [''extra: '' @ apos @ extra mainColumn @ apos @ '' '' @ arrow @ '' '' @
                apos @ extra devColumn @ apos]
             else differences)
      in differences)"

section \<open>Corrective statements\<close>

text \<open>
  \<^verbatim>\<open>generateAlterColumnCommand\<close> and \<^verbatim>\<open>generateModifyColumnCommand\<close>. The test
  \<^verbatim>\<open>if (column.extra)\<close> is the truthiness of a string: true unless it is empty.
\<close>

definition generateAlterColumnCommand :: "string \<Rightarrow> column \<Rightarrow> string" where
  "generateAlterColumnCommand tableName col =
     (let sql = ''ALTER TABLE `'' @ tableName @ ''` ADD COLUMN `'' @ column.name col @ ''` '' @
                column.type col;
          sql = (if nullable col = ''NO'' then sql @ '' NOT NULL'' else sql);
          sql = (case defaultValue col of None \<Rightarrow> sql | Some d \<Rightarrow> sql @ '' DEFAULT '' @ d);
          sql = (if extra col \<noteq> [] then sql @ '' '' @ extra col else sql)
      in sql @ '';'')"

definition generateModifyColumnCommand :: "string \<Rightarrow> column \<Rightarrow> string" where
  "generateModifyColumnCommand tableName col =
     (let sql = ''ALTER TABLE `'' @ tableName @ ''` MODIFY COLUMN `'' @ column.name col @ ''` '' @
                column.type col;
          sql = (if nullable col = ''NO'' then sql @ '' NOT NULL'' else sql);
          sql = (case defaultValue col of None \<Rightarrow> sql | Some d \<Rightarrow> sql @ '' DEFAULT '' @ d);
          sql = (if extra col \<noteq> [] then sql @ '' '' @ extra col else sql)
      in sql @ '';'')"

section \<open>Catalog reader\<close>

text \<open>
  What can be thrown: \<^verbatim>\<open>mysql.createConnection\<close> rejects (\<open>ConnectionError\<close>),
  \<^verbatim>\<open>connection.execute\<close> rejects (\<open>CatalogQueryError\<close>), or the code itself reads a
  property of \<^verbatim>\<open>undefined\<close> or \<^verbatim>\<open>null\<close> (\<open>TypeError\<close>).
\<close>

datatype error = ConnectionError | CatalogQueryError | TypeError

record table_row =
  TABLE_NAME :: string

record create_row =
  Create_Table :: string

text \<open>
  A connection is what its server answers to the four statements the code executes:
  the \<^verbatim>\<open>INFORMATION_SCHEMA.TABLES\<close> query, the \<^verbatim>\<open>INFORMATION_SCHEMA.COLUMNS\<close> query
  for a table name, \<^verbatim>\<open>SHOW INDEX FROM\<close> and \<^verbatim>\<open>SHOW CREATE TABLE\<close>. Each answer is
  the row list or the rejection.
\<close>

record connection =
  select_tables :: "error + table_row list"
  select_columns :: "string \<Rightarrow> error + column list"
  show_index :: "string \<Rightarrow> error + index_row list"
  show_create_table :: "string \<Rightarrow> error + create_row list"

text \<open>\<^verbatim>\<open>const x = await e; ...\<close>: a rejection of \<open>e\<close> is thrown on.\<close>

definition await :: "error + 'a \<Rightarrow> ('a \<Rightarrow> error + 'b) \<Rightarrow> error + 'b" where
  "await e k = (case e of Inl err \<Rightarrow> Inl err | Inr x \<Rightarrow> k x)"

definition getTables :: "connection \<Rightarrow> error + string list" where
  "getTables conn = await (select_tables conn) (\<lambda>rows. Inr (map TABLE_NAME rows))"

definition getCreateTableStatement :: "connection \<Rightarrow> string \<Rightarrow> error + string" where
  "getCreateTableStatement conn tableName =
     await (show_create_table conn tableName)
       (\<lambda>rows. case rows of [] \<Rightarrow> Inl TypeError | row # _ \<Rightarrow> Inr (Create_Table row))"

definition getTableColumns :: "connection \<Rightarrow> string \<Rightarrow> error + column list" where
  "getTableColumns conn tableName = await (select_columns conn tableName) (\<lambda>rows. Inr rows)"

text \<open>
  \<^verbatim>\<open>const indexes = {}\<close> is an ordinary object: its own properties, in creation order,
  and the properties it inherits from \<^verbatim>\<open>Object.prototype\<close>, which are all truthy
  (eleven functions, and \<^verbatim>\<open>__proto__\<close>, the prototype object itself).
\<close>

type_synonym indexes_object = "(string \<times> index_descriptor) list"

definition object_prototype_keys :: "string list" where
  "object_prototype_keys =
     [''constructor'', ''__defineGetter__'', ''__defineSetter__'', ''hasOwnProperty'',
      ''__lookupGetter__'', ''__lookupSetter__'', ''isPrototypeOf'', ''propertyIsEnumerable'',
      ''toString'', ''valueOf'', ''__proto__'', ''toLocaleString'']"

text \<open>
  The body of \<^verbatim>\<open>rows.forEach\<close>, in its two statements. \<^verbatim>\<open>!indexes[k]\<close> holds when
  \<open>k\<close> is neither an own property (the descriptors stored are objects, hence truthy)
  nor inherited; then a descriptor with no columns is stored under \<open>k\<close>. After that,
  \<^verbatim>\<open>indexes[k].columns.push(c)\<close> appends to the own descriptor; on an inherited
  value \<^verbatim>\<open>.columns\<close> is \<^verbatim>\<open>undefined\<close> and \<^verbatim>\<open>.push\<close> throws.
\<close>

definition create_if_absent :: "string \<Rightarrow> index_row \<Rightarrow> indexes_object \<Rightarrow> indexes_object" where
  "create_if_absent tableName row indexes =
     (if map_of indexes (Key_name row) = None \<and> Key_name row \<notin> set object_prototype_keys
      then AList.update (Key_name row)
             \<lparr>index_descriptor.name = Key_name row, columns = [],
              unique = (Non_unique row = 0), table = tableName\<rparr> indexes
      else indexes)"

definition push_column :: "index_row \<Rightarrow> indexes_object \<Rightarrow> error + indexes_object" where
  "push_column row indexes =
     (case map_of indexes (Key_name row) of
        None \<Rightarrow> Inl TypeError
      | Some idx \<Rightarrow>
          Inr (AList.update (Key_name row)
                 (idx\<lparr>columns := columns idx @ [Column_name row]\<rparr>) indexes))"

definition index_row_step :: "string \<Rightarrow> index_row \<Rightarrow> indexes_object \<Rightarrow> error + indexes_object" where
  "index_row_step tableName row indexes =
     (if Key_name row \<noteq> ''PRIMARY''
      then push_column row (create_if_absent tableName row indexes)
      else Inr indexes)"

fun index_rows_loop :: "string \<Rightarrow> index_row list \<Rightarrow> indexes_object \<Rightarrow> error + indexes_object" where
  "index_rows_loop tableName [] indexes = Inr indexes"
| "index_rows_loop tableName (row # rows) indexes =
     (case index_row_step tableName row indexes of
        Inl err \<Rightarrow> Inl err
      | Inr indexes' \<Rightarrow> index_rows_loop tableName rows indexes')"

text \<open>
  \<^verbatim>\<open>Object.values\<close> lists the properties whose key is an array index (the canonical
  decimal form of an integer below \<open>2\<^sup>3\<^sup>2 - 1\<close>) first, by ascending value, and then
  the others in creation order.
\<close>

definition digits_value :: "string \<Rightarrow> nat" where
  "digits_value s = foldl (\<lambda>n c. 10 * n + (of_char c - 48)) 0 s"

definition is_array_index :: "string \<Rightarrow> bool" where
  "is_array_index s \<longleftrightarrow>
     s \<noteq> [] \<and> list_all (\<lambda>c. c \<in> set ''0123456789'') s \<and>
     (s = ''0'' \<or> hd s \<noteq> CHR ''0'') \<and> digits_value s \<le> 4294967294"

definition Object_values :: "(string \<times> 'v) list \<Rightarrow> 'v list" where
  "Object_values obj =
     map snd (sort_key (\<lambda>p. digits_value (fst p)) (filter (\<lambda>p. is_array_index (fst p)) obj)) @
     map snd (filter (\<lambda>p. \<not> is_array_index (fst p)) obj)"

definition getTableIndexes :: "connection \<Rightarrow> string \<Rightarrow> error + index_descriptor list" where
  "getTableIndexes conn tableName =
     await (show_index conn tableName) (\<lambda>rows.
     await (index_rows_loop tableName rows []) (\<lambda>indexes.
     Inr (Object_values indexes)))"

section \<open>Schema differ\<close>

text \<open>
  \<^verbatim>\<open>checkAndReport\<close> pushes onto four arrays while it walks the tables of dev. Its
  console narration (and the per-table arrays that only feed it) is left out: it
  neither throws nor changes what is returned. The loops are the same text in both
  variants of the program.

  The loop over \<^verbatim>\<open>devColumns\<close>, on the arrays \<^verbatim>\<open>missingColumns\<close> and
  \<^verbatim>\<open>differentColumns\<close>. \<^verbatim>\<open>mainColumns.find\<close> yields the first row of that name, or
  \<^verbatim>\<open>undefined\<close>.
\<close>

fun columns_loop ::
  "string \<Rightarrow> column list \<Rightarrow> column list \<Rightarrow> missing_column list \<times> different_column list \<Rightarrow>
   missing_column list \<times> different_column list" where
  "columns_loop tbl mainColumns [] acc = acc"
| "columns_loop tbl mainColumns (devColumn # rest) (missingCols, differentCols) =
     (case find (\<lambda>col. column.name col = column.name devColumn) mainColumns of
        None \<Rightarrow>
          columns_loop tbl mainColumns rest
            (missingCols @ [\<lparr>missing_column.table = tbl, column = devColumn\<rparr>], differentCols)
      | Some mainColumn \<Rightarrow>
          (let diffs = compareColumns devColumn mainColumn
           in if length diffs > 0
              then columns_loop tbl mainColumns rest
                     (missingCols,
                      differentCols @
                        [\<lparr>different_column.table = tbl, column = devColumn, differences = diffs\<rparr>])
              else columns_loop tbl mainColumns rest (missingCols, differentCols)))"

text \<open>The loop over \<^verbatim>\<open>devIndexes\<close>, on the array \<^verbatim>\<open>missingIndexes\<close>.\<close>

fun indexes_loop ::
  "string list \<Rightarrow> index_descriptor list \<Rightarrow> index_descriptor list \<Rightarrow> index_descriptor list" where
  "indexes_loop mainIndexNames [] missingIdx = missingIdx"
| "indexes_loop mainIndexNames (devIndex # rest) missingIdx =
     (if index_descriptor.name devIndex \<notin> set mainIndexNames
      then indexes_loop mainIndexNames rest (missingIdx @ [devIndex])
      else indexes_loop mainIndexNames rest missingIdx)"

text \<open>
  The four arrays \<^verbatim>\<open>missingTables\<close>, \<^verbatim>\<open>missingColumns\<close>, \<^verbatim>\<open>differentColumns\<close>,
  \<^verbatim>\<open>missingIndexes\<close>, and the body of the loop over \<^verbatim>\<open>devTables\<close>.
\<close>

type_synonym findings =
  "string list \<times> missing_column list \<times> different_column list \<times> index_descriptor list"

definition check_table ::
  "connection \<Rightarrow> connection \<Rightarrow> string list \<Rightarrow> string \<Rightarrow> findings \<Rightarrow> error + findings" where
  "check_table devDb mainDb mainTables tbl acc =
     (case acc of (missingTbls, missingCols, differentCols, missingIdx) \<Rightarrow>
        if tbl \<notin> set mainTables
        then Inr (missingTbls @ [tbl], missingCols, differentCols, missingIdx)
        else
          await (getTableColumns devDb tbl) (\<lambda>devColumns.
          await (getTableColumns mainDb tbl) (\<lambda>mainColumns.
          case columns_loop tbl mainColumns devColumns (missingCols, differentCols) of
            (missingCols', differentCols') \<Rightarrow>
          await (getTableIndexes devDb tbl) (\<lambda>devIndexes.
          await (getTableIndexes mainDb tbl) (\<lambda>mainIndexes.
          let mainIndexNames = map index_descriptor.name mainIndexes
          in Inr (missingTbls, missingCols', differentCols',
                  indexes_loop mainIndexNames devIndexes missingIdx))))))"

fun tables_loop ::
  "connection \<Rightarrow> connection \<Rightarrow> string list \<Rightarrow> string list \<Rightarrow> findings \<Rightarrow> error + findings" where
  "tables_loop devDb mainDb mainTables [] acc = Inr acc"
| "tables_loop devDb mainDb mainTables (tbl # rest) acc =
     (case check_table devDb mainDb mainTables tbl acc of
        Inl err \<Rightarrow> Inl err
      | Inr acc' \<Rightarrow> tables_loop devDb mainDb mainTables rest acc')"

text \<open>
  The loop that prints the \<^verbatim>\<open>CREATE TABLE\<close> statement of each missing table: only
  its reads of the dev catalog matter here, since each can throw.
\<close>

fun create_statements_loop :: "connection \<Rightarrow> string list \<Rightarrow> error + unit" where
  "create_statements_loop devDb [] = Inr ()"
| "create_statements_loop devDb (tbl # rest) =
     (case getCreateTableStatement devDb tbl of
        Inl err \<Rightarrow> Inl err
      | Inr createStatement \<Rightarrow> create_statements_loop devDb rest)"

text \<open>\<^verbatim>\<open>checkAndReport\<close> of the variant that returns the result object.\<close>

definition checkAndReport :: "connection \<Rightarrow> connection \<Rightarrow> error + comparison_result" where
  "checkAndReport devDb mainDb =
     await (getTables devDb) (\<lambda>devTables.
     await (getTables mainDb) (\<lambda>mainTables.
     await (tables_loop devDb mainDb mainTables devTables ([], [], [], [])) (\<lambda>acc.
     case acc of (missingTbls, missingCols, differentCols, missingIdx) \<Rightarrow>
       if length missingTbls > 0 \<or> length missingCols > 0 \<or> length differentCols > 0 \<or>
          length missingIdx > 0
       then
         await (if length missingTbls > 0 then create_statements_loop devDb missingTbls
                else Inr ()) (\<lambda>_.
         Inr \<lparr>isInSync = False, missingTables = missingTbls, missingColumns = missingCols,
              differentColumns = differentCols, missingIndexes = missingIdx\<rparr>)
       else
         Inr \<lparr>isInSync = True, missingTables = [], missingColumns = [],
              differentColumns = [], missingIndexes = []\<rparr>)))"

text \<open>\<^verbatim>\<open>checkAndReport\<close> of \<^verbatim>\<open>index.js\<close>, which returns the flag alone.\<close>

definition checkAndReport_index_js :: "connection \<Rightarrow> connection \<Rightarrow> error + bool" where
  "checkAndReport_index_js devDb mainDb =
     await (getTables devDb) (\<lambda>devTables.
     await (getTables mainDb) (\<lambda>mainTables.
     await (tables_loop devDb mainDb mainTables devTables ([], [], [], [])) (\<lambda>acc.
     case acc of (missingTbls, missingCols, differentCols, missingIdx) \<Rightarrow>
       if length missingTbls > 0 \<or> length missingCols > 0 \<or> length differentCols > 0 \<or>
          length missingIdx > 0
       then
         await (if length missingTbls > 0 then create_statements_loop devDb missingTbls
                else Inr ()) (\<lambda>_. Inr False)
       else Inr True)))"

section \<open>The two entry points\<close>

text \<open>
  The checker object holds \<^verbatim>\<open>this.mainDb\<close> and \<^verbatim>\<open>this.devDb\<close>, \<^verbatim>\<open>null\<close> until
  \<^verbatim>\<open>connect\<close> assigns them. The two flags record that \<^verbatim>\<open>end()\<close> has been called on
  the connection, which is what releases it; \<^verbatim>\<open>end()\<close> itself is taken to succeed.
\<close>

record checker =
  mainDb :: "connection option"
  devDb :: "connection option"
  mainDb_ended :: bool
  devDb_ended :: bool

text \<open>
  What the run is given from outside: the outcome of the two calls of
  \<^verbatim>\<open>mysql.createConnection\<close>, whether \<^verbatim>\<open>process.env.GITHUB_ACTIONS\<close> is set, and the
  outcome of posting a comment through the \<^verbatim>\<open>@actions/github\<close> client.
\<close>

record environment =
  createConnection_main :: "error + connection"
  createConnection_dev :: "error + connection"
  GITHUB_ACTIONS :: bool
  createComment :: "error + unit"

text \<open>
  How a block of statements ends: normally, by throwing, or in \<^verbatim>\<open>process.exit(code)\<close>,
  which ends the process at once and never returns to the statements after it.
\<close>

datatype 'a completion = Normal 'a | Throw error | Exit nat

definition new_checker :: checker where
  "new_checker = \<lparr>mainDb = None, devDb = None, mainDb_ended = False, devDb_ended = False\<rparr>"

definition connect :: "environment \<Rightarrow> checker \<Rightarrow> unit completion \<times> checker" where
  "connect env this =
     (case createConnection_main env of
        Inl err \<Rightarrow> (Throw err, this)
      | Inr conn \<Rightarrow>
          (let this = this\<lparr>mainDb := Some conn\<rparr>
           in case createConnection_dev env of
                Inl err \<Rightarrow> (Throw err, this)
              | Inr conn' \<Rightarrow> (Normal (), this\<lparr>devDb := Some conn'\<rparr>)))"

definition disconnect :: "checker \<Rightarrow> unit completion \<times> checker" where
  "disconnect this =
     (let this = (if mainDb this \<noteq> None then this\<lparr>mainDb_ended := True\<rparr> else this);
          this = (if devDb this \<noteq> None then this\<lparr>devDb_ended := True\<rparr> else this)
      in (Normal (), this))"

text \<open>
  A method that reads the catalogs through \<^verbatim>\<open>this.devDb\<close> and \<^verbatim>\<open>this.mainDb\<close>:
  on \<^verbatim>\<open>null\<close> the call of \<^verbatim>\<open>connection.execute\<close> throws.
\<close>

definition with_connections ::
  "(connection \<Rightarrow> connection \<Rightarrow> error + 'a) \<Rightarrow> checker \<Rightarrow> 'a completion \<times> checker" where
  "with_connections method this =
     (case (devDb this, mainDb this) of
        (Some dev, Some main) \<Rightarrow>
          (case method dev main of Inl err \<Rightarrow> (Throw err, this) | Inr x \<Rightarrow> (Normal x, this))
      | _ \<Rightarrow> (Throw TypeError, this))"

text \<open>
  \<^verbatim>\<open>try { body } catch (error) { handler } finally { finalizer }\<close>. The handler runs
  when the body throws, the finalizer when control leaves the statement. After
  \<^verbatim>\<open>process.exit\<close> there is no control left: neither runs.
\<close>

definition try_catch ::
  "(checker \<Rightarrow> 'a completion \<times> checker) \<Rightarrow> (error \<Rightarrow> checker \<Rightarrow> 'a completion \<times> checker) \<Rightarrow>
   checker \<Rightarrow> 'a completion \<times> checker" where
  "try_catch body handler this =
     (case body this of
        (Throw err, this') \<Rightarrow> handler err this'
      | (c, this') \<Rightarrow> (c, this'))"

definition try_catch_finally ::
  "(checker \<Rightarrow> 'a completion \<times> checker) \<Rightarrow> (error \<Rightarrow> checker \<Rightarrow> 'a completion \<times> checker) \<Rightarrow>
   (checker \<Rightarrow> unit completion \<times> checker) \<Rightarrow> checker \<Rightarrow> 'a completion \<times> checker" where
  "try_catch_finally body handler finalizer this =
     (case try_catch body handler this of
        (Exit code, this') \<Rightarrow> (Exit code, this')
      | (c, this') \<Rightarrow>
          (case finalizer this' of
             (Normal _, this'') \<Rightarrow> (c, this'')
           | (Throw err, this'') \<Rightarrow> (Throw err, this'')
           | (Exit code, this'') \<Rightarrow> (Exit code, this'')))"

text \<open>
  \<^verbatim>\<open>main\<close> of \<^verbatim>\<open>index.js\<close>: both the body and the handler end in
  \<^verbatim>\<open>process.exit\<close>; \<^verbatim>\<open>disconnect\<close> is the finalizer.
\<close>

definition main_index_js :: "environment \<Rightarrow> unit completion \<times> checker" where
  "main_index_js env =
     try_catch_finally
       (\<lambda>this.
          case connect env this of
            (Normal _, this) \<Rightarrow>
              (case with_connections checkAndReport_index_js this of
                 (Normal inSync, this) \<Rightarrow> (Exit (if inSync then 0 else 1), this)
               | (Throw err, this) \<Rightarrow> (Throw err, this)
               | (Exit code, this) \<Rightarrow> (Exit code, this))
          | (c, this) \<Rightarrow> (c, this))
       (\<lambda>err this. (Exit 1, this))
       disconnect
       new_checker"

text \<open>
  \<^verbatim>\<open>generatePRComment\<close> renders the comment; the model keeps its reads of the dev
  catalog, one \<^verbatim>\<open>SHOW CREATE TABLE\<close> per missing table, which can throw. The
  summary written before it (\<^verbatim>\<open>generateActionsSummary\<close>, \<^verbatim>\<open>core.setOutput\<close>) reads
  the result only and is left out.
\<close>

definition generatePRComment :: "comparison_result \<Rightarrow> connection \<Rightarrow> connection \<Rightarrow> error + unit" where
  "generatePRComment result dev main =
     (if length (missingTables result) > 0 \<or> length (missingColumns result) > 0 \<or>
         length (differentColumns result) > 0 \<or> length (missingIndexes result) > 0
      then (if length (missingTables result) > 0
            then create_statements_loop dev (missingTables result) else Inr ())
      else Inr ())"

text \<open>
  \<^verbatim>\<open>main\<close> of the variant with the summary and the pull-request comment. The body
  calls \<^verbatim>\<open>disconnect\<close> just before \<^verbatim>\<open>process.exit(0)\<close>; the handler posts the
  failure comment and calls \<^verbatim>\<open>process.exit(1)\<close>. There is no finalizer.
\<close>

definition post_comment :: "environment \<Rightarrow> checker \<Rightarrow> unit completion \<times> checker" where
  "post_comment env this =
     (case createComment env of Inl err \<Rightarrow> (Throw err, this) | Inr _ \<Rightarrow> (Normal (), this))"

definition main_summary_body :: "environment \<Rightarrow> checker \<Rightarrow> unit completion \<times> checker" where
  "main_summary_body env this =
     (case connect env this of
        (Normal _, this) \<Rightarrow>
          (case with_connections checkAndReport this of
             (Normal result, this) \<Rightarrow>
               (case (if GITHUB_ACTIONS env \<and> \<not> isInSync result
                      then (case with_connections (generatePRComment result) this of
                              (Normal _, this) \<Rightarrow> post_comment env this
                            | (c, this) \<Rightarrow> (c, this))
                      else (Normal (), this)) of
                  (Normal _, this) \<Rightarrow>
                    (case disconnect this of
                       (Normal _, this) \<Rightarrow> (Exit 0, this)
                     | (c, this) \<Rightarrow> (c, this))
                | (c, this) \<Rightarrow> (c, this))
           | (Throw err, this) \<Rightarrow> (Throw err, this)
           | (Exit code, this) \<Rightarrow> (Exit code, this))
      | (c, this) \<Rightarrow> (c, this))"

definition main_summary :: "environment \<Rightarrow> unit completion \<times> checker" where
  "main_summary env =
     try_catch (main_summary_body env)
       (\<lambda>err this.
          case (if GITHUB_ACTIONS env then post_comment env this else (Normal (), this)) of
            (Normal _, this) \<Rightarrow> (Exit 1, this)
          | (c, this) \<Rightarrow> (c, this))
       new_checker"

section \<open>Findings per table\<close>

text \<open>
  What the walk adds to the four arrays for one table, written without accumulators:
  the reference columns whose name the target lacks, the reference columns whose
  namesake in the target compares different, and the reference indexes whose name the
  target lacks.
\<close>

definition table_missing_columns :: "string \<Rightarrow> column list \<Rightarrow> column list \<Rightarrow> missing_column list" where
  "table_missing_columns tbl mainColumns devColumns =
     map (\<lambda>c. \<lparr>missing_column.table = tbl, column = c\<rparr>)
       (filter (\<lambda>c. column.name c \<notin> set (map column.name mainColumns)) devColumns)"

definition table_different_columns :: "string \<Rightarrow> column list \<Rightarrow> column list \<Rightarrow> different_column list" where
  "table_different_columns tbl mainColumns devColumns =
     concat (map (\<lambda>c. case find (\<lambda>col. column.name col = column.name c) mainColumns of
                         None \<Rightarrow> []
                       | Some m \<Rightarrow>
                           if compareColumns c m \<noteq> []
                           then [\<lparr>different_column.table = tbl, column = c,
                                  differences = compareColumns c m\<rparr>]
                           else []) devColumns)"

definition table_missing_indexes :: "index_descriptor list \<Rightarrow> index_descriptor list \<Rightarrow> index_descriptor list" where
  "table_missing_indexes mainIndexes devIndexes =
     filter (\<lambda>i. index_descriptor.name i \<notin> set (map index_descriptor.name mainIndexes)) devIndexes"

text \<open>The same for a table of two connections; nothing when a read fails.\<close>

definition found_missing_columns :: "connection \<Rightarrow> connection \<Rightarrow> string \<Rightarrow> missing_column list" where
  "found_missing_columns dev main tbl =
     (case (getTableColumns dev tbl, getTableColumns main tbl) of
        (Inr d, Inr m) \<Rightarrow> table_missing_columns tbl m d | _ \<Rightarrow> [])"

definition found_different_columns :: "connection \<Rightarrow> connection \<Rightarrow> string \<Rightarrow> different_column list" where
  "found_different_columns dev main tbl =
     (case (getTableColumns dev tbl, getTableColumns main tbl) of
        (Inr d, Inr m) \<Rightarrow> table_different_columns tbl m d | _ \<Rightarrow> [])"

definition found_missing_indexes :: "connection \<Rightarrow> connection \<Rightarrow> string \<Rightarrow> index_descriptor list" where
  "found_missing_indexes dev main tbl =
     (case (getTableIndexes dev tbl, getTableIndexes main tbl) of
        (Inr d, Inr m) \<Rightarrow> table_missing_indexes m d | _ \<Rightarrow> [])"

section \<open>Catalogs\<close>

text \<open>
  A catalog in the sense of the specification: the table names, and for each table
  its column descriptors and its index descriptors. A connection \<^emph>\<open>reads\<close> as a
  catalog when the three catalog operations succeed with these answers.
\<close>

record catalog =
  tables :: "string list"
  table_columns :: "string \<Rightarrow> column list"
  table_indexes :: "string \<Rightarrow> index_descriptor list"

definition reads :: "connection \<Rightarrow> catalog \<Rightarrow> bool" where
  "reads conn cat \<longleftrightarrow>
     getTables conn = Inr (tables cat) \<and>
     (\<forall>t \<in> set (tables cat).
        getTableColumns conn t = Inr (table_columns cat t) \<and>
        getTableIndexes conn t = Inr (table_indexes cat t))"

definition unique_column_names :: "catalog \<Rightarrow> bool" where
  "unique_column_names cat \<longleftrightarrow>
     (\<forall>t \<in> set (tables cat). distinct (map column.name (table_columns cat t)))"

definition structurally_equal :: "catalog \<Rightarrow> catalog \<Rightarrow> bool" where
  "structurally_equal A B \<longleftrightarrow>
     tables A = tables B \<and>
     (\<forall>t \<in> set (tables A).
        table_columns A t = table_columns B t \<and> table_indexes A t = table_indexes B t)"

definition structural_superset :: "catalog \<Rightarrow> catalog \<Rightarrow> bool" where
  "structural_superset B A \<longleftrightarrow>
     set (tables A) \<subseteq> set (tables B) \<and>
     (\<forall>t \<in> set (tables A).
        set (table_columns A t) \<subseteq> set (table_columns B t) \<and>
        set (table_indexes A t) \<subseteq> set (table_indexes B t))"

section \<open>Grouping of index rows\<close>

text \<open>
  The descriptor that grouping by name gives for the index name \<open>k\<close>: the columns of
  the rows of that name in the order of the rows, and unique when the first of them
  has \<open>Non_unique = 0\<close>. The index names of a row list are the key names other than
  \<open>PRIMARY\<close>. An object is \<^emph>\<open>grouped\<close> for a row list when its own properties are
  exactly these descriptors under these names.
\<close>

definition index_of_rows :: "string \<Rightarrow> index_row list \<Rightarrow> string \<Rightarrow> index_descriptor" where
  "index_of_rows tableName rows k =
     \<lparr>index_descriptor.name = k,
      columns = map Column_name (filter (\<lambda>r. Key_name r = k) rows),
      unique = (case filter (\<lambda>r. Key_name r = k) rows of
                  [] \<Rightarrow> False | r # _ \<Rightarrow> Non_unique r = 0),
      table = tableName\<rparr>"

definition index_names :: "index_row list \<Rightarrow> string set" where
  "index_names rows = Key_name ` {r \<in> set rows. Key_name r \<noteq> ''PRIMARY''}"

definition grouped :: "string \<Rightarrow> index_row list \<Rightarrow> indexes_object \<Rightarrow> bool" where
  "grouped tableName rows indexes \<longleftrightarrow>
     distinct (map fst indexes) \<and>
     (\<forall>k. map_of indexes k =
            (if k \<in> index_names rows then Some (index_of_rows tableName rows k) else None))"

section \<open>Example data\<close>

definition note_col :: column where
  "note_col =
     \<lparr>column.name = ''note'', type = ''varchar(10)'', nullable = ''NO'', defaultValue = Some '''',
      extra = '''', keyType = '''', maxLength = Some 10, numericPrecision = None,
      numericScale = None\<rparr>"

definition id_col :: column where
  "id_col =
     \<lparr>column.name = ''id'', type = ''int(11)'', nullable = ''NO'', defaultValue = None,
      extra = ''auto_increment'', keyType = ''PRI'', maxLength = None,
      numericPrecision = Some 10, numericScale = Some 0\<rparr>"

definition x_col :: column where
  "x_col = id_col\<lparr>column.name := ''x'', extra := '''', keyType := ''MUL''\<rparr>"

definition y_col :: column where
  "y_col = note_col\<lparr>column.name := ''y'', keyType := ''MUL''\<rparr>"

definition age_col :: column where
  "age_col =
     id_col\<lparr>column.name := ''age'', type := ''int'', defaultValue := Some ''0'',
       extra := '''', keyType := ''''\<rparr>"

definition ix_a :: index_descriptor where
  "ix_a = \<lparr>index_descriptor.name = ''ix_a'', columns = [''x'', ''y''], unique = True,
           table = ''users''\<rparr>"

definition ix_b :: index_descriptor where
  "ix_b = \<lparr>index_descriptor.name = ''ix_b'', columns = [''y''], unique = False,
           table = ''users''\<rparr>"

definition ix_c :: index_descriptor where
  "ix_c = \<lparr>index_descriptor.name = ''ix_c'', columns = [''note''], unique = False,
           table = ''users''\<rparr>"

text \<open>
  The reference: tables \<open>orders\<close> and \<open>users\<close>, the latter with the two-column
  unique index \<open>ix_a\<close> and the index \<open>ix_b\<close>.
\<close>

definition dev_conn :: connection where
  "dev_conn =
     \<lparr>select_tables = Inr [\<lparr>TABLE_NAME = ''orders''\<rparr>, \<lparr>TABLE_NAME = ''users''\<rparr>],
      select_columns =
        (\<lambda>t. if t = ''users'' then Inr [id_col, x_col, y_col, age_col]
              else if t = ''orders'' then Inr [id_col] else Inr []),
      show_index =
        (\<lambda>t. if t = ''users''
              then Inr [\<lparr>Key_name = ''PRIMARY'', Column_name = ''id'', Non_unique = 0\<rparr>,
                        \<lparr>Key_name = ''ix_a'', Column_name = ''x'', Non_unique = 0\<rparr>,
                        \<lparr>Key_name = ''ix_a'', Column_name = ''y'', Non_unique = 0\<rparr>,
                        \<lparr>Key_name = ''ix_b'', Column_name = ''y'', Non_unique = 1\<rparr>]
              else if t = ''orders''
              then Inr [\<lparr>Key_name = ''PRIMARY'', Column_name = ''id'', Non_unique = 0\<rparr>]
              else Inl CatalogQueryError),
      show_create_table =
        (\<lambda>t. if t = ''orders''
              then Inr [\<lparr>Create_Table = ''CREATE TABLE `orders` (`id` int(11) NOT NULL)''\<rparr>]
              else Inl CatalogQueryError)\<rparr>"

definition dev_catalog :: catalog where
  "dev_catalog =
     \<lparr>tables = [''orders'', ''users''],
      table_columns =
        (\<lambda>t. if t = ''users'' then [id_col, x_col, y_col, age_col]
              else if t = ''orders'' then [id_col] else []),
      table_indexes = (\<lambda>t. if t = ''users'' then [ix_a, ix_b] else [])\<rparr>"

text \<open>
  A target that lacks the table \<open>orders\<close>, the column \<open>age\<close> and the index
  \<open>ix_b\<close>, has another type for \<open>id\<close>, and has an index named \<open>ix_a\<close> on other
  columns and not unique.
\<close>

definition main_conn :: connection where
  "main_conn =
     \<lparr>select_tables = Inr [\<lparr>TABLE_NAME = ''users''\<rparr>],
      select_columns =
        (\<lambda>t. if t = ''users'' then Inr [id_col\<lparr>type := ''int(10)''\<rparr>, y_col, x_col]
              else Inr []),
      show_index =
        (\<lambda>t. if t = ''users''
              then Inr [\<lparr>Key_name = ''PRIMARY'', Column_name = ''id'', Non_unique = 0\<rparr>,
                        \<lparr>Key_name = ''ix_a'', Column_name = ''y'', Non_unique = 1\<rparr>]
              else Inl CatalogQueryError),
      show_create_table = (\<lambda>t. Inl CatalogQueryError)\<rparr>"

definition drift_result :: comparison_result where
  "drift_result =
     \<lparr>isInSync = False, missingTables = [''orders''],
      missingColumns = [\<lparr>missing_column.table = ''users'', column = age_col\<rparr>],
      differentColumns =
        [\<lparr>different_column.table = ''users'', column = id_col,
          differences =
            [''type: '' @ apos @ ''int(10)'' @ apos @ '' '' @ arrow @ '' '' @
             apos @ ''int(11)'' @ apos]\<rparr>],
      missingIndexes = [ix_b]\<rparr>"

text \<open>
  A target with everything the reference has, and more: the table \<open>audit\<close>, the
  column \<open>note\<close> and the index \<open>ix_c\<close>.
\<close>

definition wide_conn :: connection where
  "wide_conn =
     \<lparr>select_tables =
        Inr [\<lparr>TABLE_NAME = ''audit''\<rparr>, \<lparr>TABLE_NAME = ''orders''\<rparr>, \<lparr>TABLE_NAME = ''users''\<rparr>],
      select_columns =
        (\<lambda>t. if t = ''users'' then Inr [id_col, x_col, y_col, age_col, note_col]
              else if t = ''orders'' then Inr [id_col]
              else if t = ''audit'' then Inr [id_col, note_col] else Inr []),
      show_index =
        (\<lambda>t. if t = ''users''
              then Inr [\<lparr>Key_name = ''PRIMARY'', Column_name = ''id'', Non_unique = 0\<rparr>,
                        \<lparr>Key_name = ''ix_a'', Column_name = ''x'', Non_unique = 0\<rparr>,
                        \<lparr>Key_name = ''ix_a'', Column_name = ''y'', Non_unique = 0\<rparr>,
                        \<lparr>Key_name = ''ix_b'', Column_name = ''y'', Non_unique = 1\<rparr>,
                        \<lparr>Key_name = ''ix_c'', Column_name = ''note'', Non_unique = 1\<rparr>]
              else if t = ''orders'' \<or> t = ''audit''
              then Inr [\<lparr>Key_name = ''PRIMARY'', Column_name = ''id'', Non_unique = 0\<rparr>]
              else Inl CatalogQueryError),
      show_create_table = (\<lambda>t. Inl CatalogQueryError)\<rparr>"

definition wide_catalog :: catalog where
  "wide_catalog =
     \<lparr>tables = [''audit'', ''orders'', ''users''],
      table_columns =
        (\<lambda>t. if t = ''users'' then [id_col, x_col, y_col, age_col, note_col]
              else if t = ''orders'' then [id_col]
              else if t = ''audit'' then [id_col, note_col] else []),
      table_indexes = (\<lambda>t. if t = ''users'' then [ix_a, ix_b, ix_c] else [])\<rparr>"

text \<open>
  The index rows of the specification's example, and the rows of a table with an index
  named \<open>constructor\<close>.
\<close>

definition constructor_conn :: connection where
  "constructor_conn =
     \<lparr>select_tables = Inr [\<lparr>TABLE_NAME = ''users''\<rparr>],
      select_columns = (\<lambda>t. Inr [id_col, x_col]),
      show_index =
        (\<lambda>t. Inr [\<lparr>Key_name = ''PRIMARY'', Column_name = ''id'', Non_unique = 0\<rparr>,
                  \<lparr>Key_name = ''constructor'', Column_name = ''x'', Non_unique = 0\<rparr>]),
      show_create_table = (\<lambda>t. Inl CatalogQueryError)\<rparr>"

definition ix_a_conn :: connection where
  "ix_a_conn =
     \<lparr>select_tables = Inr [\<lparr>TABLE_NAME = ''users''\<rparr>],
      select_columns = (\<lambda>t. Inr [x_col, y_col]),
      show_index =
        (\<lambda>t. Inr [\<lparr>Key_name = ''ix_a'', Column_name = ''x'', Non_unique = 0\<rparr>,
                  \<lparr>Key_name = ''ix_a'', Column_name = ''y'', Non_unique = 0\<rparr>]),
      show_create_table = (\<lambda>t. Inl CatalogQueryError)\<rparr>"

text \<open>
  Two runs: one where both connections open and the target has everything, one where
  the connection to dev is refused after the connection to main has been opened.
\<close>

definition in_sync_env :: environment where
  "in_sync_env =
     \<lparr>createConnection_main = Inr wide_conn, createConnection_dev = Inr dev_conn,
      GITHUB_ACTIONS = False, createComment = Inr ()\<rparr>"

definition dev_refused_env :: environment where
  "dev_refused_env =
     \<lparr>createConnection_main = Inr main_conn, createConnection_dev = Inl ConnectionError,
      GITHUB_ACTIONS = False, createComment = Inr ()\<rparr>"

section \<open>Properties of the column comparator and the SQL emitter\<close>

lemma compareColumns_notes:
  "compareColumns dev main =
     (if column.type dev \<noteq> column.type main
      then [''type: '' @ apos @ column.type main @ apos @ '' '' @ arrow @ '' '' @
            apos @ column.type dev @ apos] else []) @
     (if nullable dev \<noteq> nullable main
      then [''nullable: '' @ nullable main @ '' '' @ arrow @ '' '' @ nullable dev] else []) @
     (if (case defaultValue dev of None \<Rightarrow> ''NULL'' | Some d \<Rightarrow> d) \<noteq>
         (case defaultValue main of None \<Rightarrow> ''NULL'' | Some d \<Rightarrow> d)
      then [''default: '' @ (case defaultValue main of None \<Rightarrow> ''NULL'' | Some d \<Rightarrow> d) @
            '' '' @ arrow @ '' '' @ (case defaultValue dev of None \<Rightarrow> ''NULL'' | Some d \<Rightarrow> d)]
      else []) @
     (if extra dev \<noteq> extra main
      then [''extra: '' @ apos @ extra main @ apos @ '' '' @ arrow @ '' '' @
            apos @ extra dev @ apos] else [])"
  by (simp add: compareColumns_def Let_def)

lemma compareColumns_self: "compareColumns c c = []"
  by (simp add: compareColumns_def)

text \<open>
  Claim C4. The comparator tests type, nullable, default and extra in this order and
  appends at most one note for each, so its result is the list of the notes of the
  dimensions that differ, in that order, of length at most four. For the reference
  column of type \<open>int(11)\<close> and the target column of type \<open>int(10)\<close>, both
  \<open>NO\<close>, without default and without extra, the result is the single note
  \<^verbatim>\<open>type: 'int(10)' -> 'int(11)'\<close> (with the arrow U+2192): the target's type first.
\<close>

theorem C4_compareColumns_fixed_order:
  "compareColumns dev main =
     (if column.type dev \<noteq> column.type main
      then [''type: '' @ apos @ column.type main @ apos @ '' '' @ arrow @ '' '' @
            apos @ column.type dev @ apos] else []) @
     (if nullable dev \<noteq> nullable main
      then [''nullable: '' @ nullable main @ '' '' @ arrow @ '' '' @ nullable dev] else []) @
     (if (case defaultValue dev of None \<Rightarrow> ''NULL'' | Some d \<Rightarrow> d) \<noteq>
         (case defaultValue main of None \<Rightarrow> ''NULL'' | Some d \<Rightarrow> d)
      then [''default: '' @ (case defaultValue main of None \<Rightarrow> ''NULL'' | Some d \<Rightarrow> d) @
            '' '' @ arrow @ '' '' @ (case defaultValue dev of None \<Rightarrow> ''NULL'' | Some d \<Rightarrow> d)]
      else []) @
     (if extra dev \<noteq> extra main
      then [''extra: '' @ apos @ extra main @ apos @ '' '' @ arrow @ '' '' @
            apos @ extra dev @ apos] else [])
   \<and> length (compareColumns dev main) \<le> 4
   \<and> compareColumns
        \<lparr>column.name = n, type = ''int(11)'', nullable = ''NO'', defaultValue = None,
         extra = '''', keyType = k, maxLength = ml, numericPrecision = np, numericScale = ns\<rparr>
        \<lparr>column.name = n', type = ''int(10)'', nullable = ''NO'', defaultValue = None,
         extra = '''', keyType = k', maxLength = ml', numericPrecision = np', numericScale = ns'\<rparr>
      = [''type: '' @ apos @ ''int(10)'' @ apos @ '' '' @ arrow @ '' '' @ apos @ ''int(11)'' @ apos]"
  by (simp add: compareColumns_notes)

theorem C4_compareColumns_fixed_order_witness:
  "compareColumns (note_col\<lparr>type := ''int(11)'', defaultValue := None\<rparr>)
     (note_col\<lparr>type := ''int(10)'', defaultValue := None\<rparr>) =
     [''type: '' @ apos @ ''int(10)'' @ apos @ '' '' @ arrow @ '' '' @ apos @ ''int(11)'' @ apos]
   \<and> compareColumns (note_col\<lparr>type := ''int(11)'', defaultValue := None\<rparr>)
       (note_col\<lparr>type := ''int(10)'', defaultValue := None\<rparr>) =
     [[CHR ''t'', CHR ''y'', CHR ''p'', CHR ''e'', CHR '':'', CHR '' '', CHR 0x27,
       CHR ''i'', CHR ''n'', CHR ''t'', CHR ''('', CHR ''1'', CHR ''0'', CHR '')'', CHR 0x27,
       CHR '' '', CHR 0xE2, CHR 0x86, CHR 0x92, CHR '' '', CHR 0x27,
       CHR ''i'', CHR ''n'', CHR ''t'', CHR ''('', CHR ''1'', CHR ''1'', CHR '')'', CHR 0x27]]"
  using C4_compareColumns_fixed_order
    [of "note_col\<lparr>type := ''int(11)'', defaultValue := None\<rparr>"
        "note_col\<lparr>type := ''int(10)'', defaultValue := None\<rparr>"]
  by (simp add: note_col_def apos_def arrow_def)

text \<open>
  Claim C8. Both defaults are normalised before they are compared, \<open>null\<close> becoming
  the string \<open>NULL\<close>: two columns that agree on type, nullable and extra, one without
  default and the other with the default \<open>NULL\<close> as a string, compare equal.
\<close>

theorem C8_null_default_normalised:
  assumes "column.type dev = column.type main" and "nullable dev = nullable main"
    and "extra dev = extra main"
    and "defaultValue dev = None \<and> defaultValue main = Some ''NULL'' \<or>
         defaultValue dev = Some ''NULL'' \<and> defaultValue main = None"
  shows "compareColumns dev main = []"
  using assms by (auto simp add: compareColumns_def)

theorem C8_null_default_normalised_witness:
  "compareColumns (note_col\<lparr>defaultValue := None\<rparr>) (note_col\<lparr>defaultValue := Some ''NULL''\<rparr>) = []
   \<and> compareColumns (note_col\<lparr>defaultValue := Some ''NULL''\<rparr>) (note_col\<lparr>defaultValue := None\<rparr>) = []"
  using
    C8_null_default_normalised
      [of "note_col\<lparr>defaultValue := None\<rparr>" "note_col\<lparr>defaultValue := Some ''NULL''\<rparr>"]
    C8_null_default_normalised
      [of "note_col\<lparr>defaultValue := Some ''NULL''\<rparr>" "note_col\<lparr>defaultValue := None\<rparr>"]
  by (simp add: note_col_def)

lemma generateAlterColumnCommand_shape:
  "generateAlterColumnCommand tableName col =
     ''ALTER TABLE `'' @ tableName @ ''` ADD COLUMN `'' @ column.name col @ ''` '' @
     column.type col @
     (if nullable col = ''NO'' then '' NOT NULL'' else []) @
     (case defaultValue col of None \<Rightarrow> [] | Some d \<Rightarrow> '' DEFAULT '' @ d) @
     (if extra col \<noteq> [] then '' '' @ extra col else []) @ '';''"
  by (simp add: generateAlterColumnCommand_def split: option.split)

lemma generateModifyColumnCommand_shape:
  "generateModifyColumnCommand tableName col =
     ''ALTER TABLE `'' @ tableName @ ''` MODIFY COLUMN `'' @ column.name col @ ''` '' @
     column.type col @
     (if nullable col = ''NO'' then '' NOT NULL'' else []) @
     (case defaultValue col of None \<Rightarrow> [] | Some d \<Rightarrow> '' DEFAULT '' @ d) @
     (if extra col \<noteq> [] then '' '' @ extra col else []) @ '';''"
  by (simp add: generateModifyColumnCommand_def split: option.split)

text \<open>
  Claim C7. The statement for a missing column is
  \<^verbatim>\<open>ALTER TABLE `table` ADD COLUMN `name` type\<close>, then \<^verbatim>\<open> NOT NULL\<close> exactly when
  nullable is \<open>NO\<close>, then \<^verbatim>\<open> DEFAULT value\<close> exactly when the default is not null, then
  a space and the extra string exactly when it is not empty, then the semicolon. For the
  column \<open>age\<close> of type \<open>int\<close>, \<open>NO\<close>, default \<open>0\<close>, no extra, on table \<open>users\<close>
  it is \<^verbatim>\<open>ALTER TABLE `users` ADD COLUMN `age` int NOT NULL DEFAULT 0;\<close>.
\<close>

theorem C7_generateAlterColumnCommand:
  "generateAlterColumnCommand tableName col =
     ''ALTER TABLE `'' @ tableName @ ''` ADD COLUMN `'' @ column.name col @ ''` '' @
     column.type col @
     (if nullable col = ''NO'' then '' NOT NULL'' else []) @
     (case defaultValue col of None \<Rightarrow> [] | Some d \<Rightarrow> '' DEFAULT '' @ d) @
     (if extra col \<noteq> [] then '' '' @ extra col else []) @ '';''
   \<and> generateAlterColumnCommand ''users''
        \<lparr>column.name = ''age'', type = ''int'', nullable = ''NO'', defaultValue = Some ''0'',
         extra = '''', keyType = k, maxLength = ml, numericPrecision = np, numericScale = ns\<rparr>
      = ''ALTER TABLE `users` ADD COLUMN `age` int NOT NULL DEFAULT 0;''"
  by (simp add: generateAlterColumnCommand_shape)

theorem C7_generateAlterColumnCommand_witness:
  "generateAlterColumnCommand ''users''
     (note_col\<lparr>column.name := ''age'', type := ''int'', defaultValue := Some ''0''\<rparr>) =
     ''ALTER TABLE `users` ADD COLUMN `age` int NOT NULL DEFAULT 0;''
   \<and> generateAlterColumnCommand ''users''
     (note_col\<lparr>nullable := ''YES'', defaultValue := None, extra := ''auto_increment''\<rparr>) =
     ''ALTER TABLE `users` ADD COLUMN `note` varchar(10) auto_increment;''"
  using
    C7_generateAlterColumnCommand
      [of "''users''" "note_col\<lparr>column.name := ''age'', type := ''int'', defaultValue := Some ''0''\<rparr>"]
    C7_generateAlterColumnCommand
      [of "''users''" "note_col\<lparr>nullable := ''YES'', defaultValue := None, extra := ''auto_increment''\<rparr>"]
  by (simp add: note_col_def)

text \<open>
  Claim C10. A column whose default is the empty string (not null) still gets the
  \<^verbatim>\<open>DEFAULT\<close> clause in both statements, with nothing between the keyword's space
  and what follows; when extra is empty too, the statement ends in \<^verbatim>\<open> DEFAULT ;\<close>.
\<close>

theorem C10_empty_default_clause:
  assumes "defaultValue col = Some ''''"
  shows "generateAlterColumnCommand tableName col =
           ''ALTER TABLE `'' @ tableName @ ''` ADD COLUMN `'' @ column.name col @ ''` '' @
           column.type col @ (if nullable col = ''NO'' then '' NOT NULL'' else []) @
           '' DEFAULT '' @ (if extra col \<noteq> [] then '' '' @ extra col else []) @ '';''
       \<and> generateModifyColumnCommand tableName col =
           ''ALTER TABLE `'' @ tableName @ ''` MODIFY COLUMN `'' @ column.name col @ ''` '' @
           column.type col @ (if nullable col = ''NO'' then '' NOT NULL'' else []) @
           '' DEFAULT '' @ (if extra col \<noteq> [] then '' '' @ extra col else []) @ '';''
       \<and> (extra col = [] \<longrightarrow>
            suffix '' DEFAULT ;'' (generateAlterColumnCommand tableName col) \<and>
            suffix '' DEFAULT ;'' (generateModifyColumnCommand tableName col))"
proof (intro conjI impI)
  show "generateAlterColumnCommand tableName col =
           ''ALTER TABLE `'' @ tableName @ ''` ADD COLUMN `'' @ column.name col @ ''` '' @
           column.type col @ (if nullable col = ''NO'' then '' NOT NULL'' else []) @
           '' DEFAULT '' @ (if extra col \<noteq> [] then '' '' @ extra col else []) @ '';''"
    using assms by (simp add: generateAlterColumnCommand_shape)
  show "generateModifyColumnCommand tableName col =
           ''ALTER TABLE `'' @ tableName @ ''` MODIFY COLUMN `'' @ column.name col @ ''` '' @
           column.type col @ (if nullable col = ''NO'' then '' NOT NULL'' else []) @
           '' DEFAULT '' @ (if extra col \<noteq> [] then '' '' @ extra col else []) @ '';''"
    using assms by (simp add: generateModifyColumnCommand_shape)
next
  assume e: "extra col = []"
  have "generateAlterColumnCommand tableName col =
          (''ALTER TABLE `'' @ tableName @ ''` ADD COLUMN `'' @ column.name col @ ''` '' @
           column.type col @ (if nullable col = ''NO'' then '' NOT NULL'' else [])) @
          '' DEFAULT ;''"
    using assms e by (simp add: generateAlterColumnCommand_shape)
  then show "suffix '' DEFAULT ;'' (generateAlterColumnCommand tableName col)"
    by (rule suffixI)
  have "generateModifyColumnCommand tableName col =
          (''ALTER TABLE `'' @ tableName @ ''` MODIFY COLUMN `'' @ column.name col @ ''` '' @
           column.type col @ (if nullable col = ''NO'' then '' NOT NULL'' else [])) @
          '' DEFAULT ;''"
    using assms e by (simp add: generateModifyColumnCommand_shape)
  then show "suffix '' DEFAULT ;'' (generateModifyColumnCommand tableName col)"
    by (rule suffixI)
qed

theorem C10_empty_default_clause_witness:
  "defaultValue note_col = Some '''' \<and> extra note_col = []
   \<and> generateAlterColumnCommand ''users'' note_col =
       ''ALTER TABLE `users` ADD COLUMN `note` varchar(10) NOT NULL DEFAULT ;''
   \<and> generateModifyColumnCommand ''users'' note_col =
       ''ALTER TABLE `users` MODIFY COLUMN `note` varchar(10) NOT NULL DEFAULT ;''
   \<and> suffix '' DEFAULT ;'' (generateAlterColumnCommand ''users'' note_col)
   \<and> suffix '' DEFAULT ;'' (generateModifyColumnCommand ''users'' note_col)"
proof -
  have h: "defaultValue note_col = Some ''''" and e: "extra note_col = []"
    by (simp_all add: note_col_def)
  note c = C10_empty_default_clause [OF h, of "''users''"]
  have a: "generateAlterColumnCommand ''users'' note_col =
       ''ALTER TABLE `users` ADD COLUMN `note` varchar(10) NOT NULL DEFAULT ;''"
    using c by (simp add: note_col_def)
  have m: "generateModifyColumnCommand ''users'' note_col =
       ''ALTER TABLE `users` MODIFY COLUMN `note` varchar(10) NOT NULL DEFAULT ;''"
    using c by (simp add: note_col_def)
  from c e h a m show ?thesis by blast
qed

section \<open>Properties of the walk\<close>

text \<open>
  The loops are characterised without their accumulators: a run that returns has
  added, for each reference table in turn, the table itself when the target lacks it
  and its findings otherwise.
\<close>

lemma await_Inr [simp]: "await (Inr x) k = k x"
  by (simp add: await_def)

lemma await_Inl [simp]: "await (Inl e) k = Inl e"
  by (simp add: await_def)

lemma await_eq_Inr: "await e k = Inr y \<longleftrightarrow> (\<exists>x. e = Inr x \<and> k x = Inr y)"
  by (cases e) simp_all

lemma find_None_names:
  "find (\<lambda>col. column.name col = n) cols = None \<longleftrightarrow> n \<notin> set (map column.name cols)"
  by (auto simp add: find_None_iff)

lemma columns_loop_eq:
  "columns_loop tbl mainColumns devColumns (mc, dc) =
     (mc @ table_missing_columns tbl mainColumns devColumns,
      dc @ table_different_columns tbl mainColumns devColumns)"
proof (induction devColumns arbitrary: mc dc)
  case Nil
  show ?case by (simp add: table_missing_columns_def table_different_columns_def)
next
  case (Cons c rest)
  show ?case
  proof (cases "find (\<lambda>col. column.name col = column.name c) mainColumns")
    case None
    then have "column.name c \<notin> set (map column.name mainColumns)"
      by (simp add: find_None_names)
    with None Cons.IH show ?thesis
      by (simp add: table_missing_columns_def table_different_columns_def)
  next
    case (Some m)
    then have "find (\<lambda>col. column.name col = column.name c) mainColumns \<noteq> None"
      by simp
    then have "column.name c \<in> set (map column.name mainColumns)"
      by (simp add: find_None_names)
    with Some Cons.IH show ?thesis
      by (simp add: table_missing_columns_def table_different_columns_def Let_def)
  qed
qed

lemma indexes_loop_eq:
  "indexes_loop (map index_descriptor.name mainIndexes) devIndexes mi =
     mi @ table_missing_indexes mainIndexes devIndexes"
  by (induction devIndexes arbitrary: mi) (simp_all add: table_missing_indexes_def)

lemma check_table_absent:
  "tbl \<notin> set mainTables \<Longrightarrow>
   check_table dev main mainTables tbl (mt, mc, dc, mi) = Inr (mt @ [tbl], mc, dc, mi)"
  by (simp add: check_table_def)

lemma check_table_present:
  assumes "tbl \<in> set mainTables"
    and "getTableColumns dev tbl = Inr dcols" and "getTableColumns main tbl = Inr mcols"
    and "getTableIndexes dev tbl = Inr didx" and "getTableIndexes main tbl = Inr midx"
  shows "check_table dev main mainTables tbl (mt, mc, dc, mi) =
           Inr (mt, mc @ table_missing_columns tbl mcols dcols,
                dc @ table_different_columns tbl mcols dcols,
                mi @ table_missing_indexes midx didx)"
  using assms by (simp add: check_table_def columns_loop_eq indexes_loop_eq)

lemma check_table_Inr:
  assumes "check_table dev main mainTables tbl (mt, mc, dc, mi) = Inr acc'"
    and "tbl \<in> set mainTables"
  shows "\<exists>dcols mcols didx midx.
           getTableColumns dev tbl = Inr dcols \<and> getTableColumns main tbl = Inr mcols \<and>
           getTableIndexes dev tbl = Inr didx \<and> getTableIndexes main tbl = Inr midx"
  using assms
  by (auto simp add: check_table_def await_eq_Inr columns_loop_eq)

lemma check_table_found:
  assumes "check_table dev main mainTables tbl (mt, mc, dc, mi) = Inr acc'"
  shows "acc' =
           (mt @ (if tbl \<in> set mainTables then [] else [tbl]),
            mc @ (if tbl \<in> set mainTables then found_missing_columns dev main tbl else []),
            dc @ (if tbl \<in> set mainTables then found_different_columns dev main tbl else []),
            mi @ (if tbl \<in> set mainTables then found_missing_indexes dev main tbl else []))"
proof (cases "tbl \<in> set mainTables")
  case False
  with assms show ?thesis by (simp add: check_table_absent)
next
  case True
  from check_table_Inr [OF assms True] obtain dcols mcols didx midx where
    r: "getTableColumns dev tbl = Inr dcols" "getTableColumns main tbl = Inr mcols"
       "getTableIndexes dev tbl = Inr didx" "getTableIndexes main tbl = Inr midx"
    by blast
  from assms check_table_present [OF True r] True r show ?thesis
    by (simp add: found_missing_columns_def found_different_columns_def
        found_missing_indexes_def)
qed

lemma tables_loop_found:
  assumes "tables_loop dev main mainTables devTables (mt, mc, dc, mi) = Inr acc'"
  shows "acc' =
    (mt @ filter (\<lambda>t. t \<notin> set mainTables) devTables,
     mc @ concat (map (found_missing_columns dev main) (filter (\<lambda>t. t \<in> set mainTables) devTables)),
     dc @ concat (map (found_different_columns dev main) (filter (\<lambda>t. t \<in> set mainTables) devTables)),
     mi @ concat (map (found_missing_indexes dev main) (filter (\<lambda>t. t \<in> set mainTables) devTables)))"
  using assms
proof (induction devTables arbitrary: mt mc dc mi)
  case Nil
  then show ?case by simp
next
  case (Cons tbl rest)
  from Cons.prems obtain acc1 where
    s: "check_table dev main mainTables tbl (mt, mc, dc, mi) = Inr acc1"
    and l: "tables_loop dev main mainTables rest acc1 = Inr acc'"
    by (auto split: sum.splits)
  note f = check_table_found [OF s]
  show ?case
  proof (cases "tbl \<in> set mainTables")
    case True
    with f l Cons.IH [of mt "mc @ found_missing_columns dev main tbl"
        "dc @ found_different_columns dev main tbl" "mi @ found_missing_indexes dev main tbl"]
    show ?thesis by simp
  next
    case False
    with f l Cons.IH [of "mt @ [tbl]" mc dc mi] show ?thesis by simp
  qed
qed

lemma tables_loop_reads:
  assumes "tables_loop dev main mainTables devTables acc = Inr acc'"
    and "tbl \<in> set devTables" and "tbl \<in> set mainTables"
  shows "\<exists>dcols mcols didx midx.
           getTableColumns dev tbl = Inr dcols \<and> getTableColumns main tbl = Inr mcols \<and>
           getTableIndexes dev tbl = Inr didx \<and> getTableIndexes main tbl = Inr midx"
  using assms
proof (induction devTables arbitrary: acc)
  case Nil
  then show ?case by simp
next
  case (Cons t rest)
  from Cons.prems(1) obtain acc1 where
    s: "check_table dev main mainTables t acc = Inr acc1"
    and l: "tables_loop dev main mainTables rest acc1 = Inr acc'"
    by (auto split: sum.splits)
  show ?case
  proof (cases "tbl = t")
    case True
    obtain mt mc dc mi where "acc = (mt, mc, dc, mi)" by (cases acc) auto
    with s True Cons.prems(3) show ?thesis using check_table_Inr by blast
  next
    case False
    with Cons.prems(2) have "tbl \<in> set rest" by simp
    from Cons.IH [OF l this Cons.prems(3)] show ?thesis .
  qed
qed

lemma find_distinct_names:
  "distinct (map column.name cols) \<Longrightarrow> c \<in> set cols \<Longrightarrow>
   find (\<lambda>col. column.name col = column.name c) cols = Some c"
proof (induction cols)
  case Nil
  then show ?case by simp
next
  case (Cons a cols)
  show ?case
  proof (cases "a = c")
    case True
    then show ?thesis by simp
  next
    case False
    with Cons.prems have m: "c \<in> set cols" by simp
    with Cons.prems have "column.name a \<noteq> column.name c" by auto
    with Cons.IH m Cons.prems show ?thesis by simp
  qed
qed

lemma table_missing_columns_covered:
  "set dcols \<subseteq> set mcols \<Longrightarrow> table_missing_columns tbl mcols dcols = []"
  by (auto simp add: table_missing_columns_def filter_empty_conv)

lemma table_different_columns_covered:
  assumes "set dcols \<subseteq> set mcols" and "distinct (map column.name mcols)"
  shows "table_different_columns tbl mcols dcols = []"
proof -
  have "find (\<lambda>col. column.name col = column.name c) mcols = Some c" if "c \<in> set dcols" for c
    using that assms find_distinct_names by blast
  then show ?thesis
    by (simp add: table_different_columns_def compareColumns_self)
qed

lemma table_missing_indexes_covered:
  "set didx \<subseteq> set midx \<Longrightarrow> table_missing_indexes midx didx = []"
  by (auto simp add: table_missing_indexes_def filter_empty_conv)

lemma tables_loop_covered:
  assumes "set devTables \<subseteq> set mainTables"
    and "\<forall>t \<in> set devTables. \<exists>dcols mcols didx midx.
           getTableColumns dev t = Inr dcols \<and> getTableColumns main t = Inr mcols \<and>
           getTableIndexes dev t = Inr didx \<and> getTableIndexes main t = Inr midx \<and>
           set dcols \<subseteq> set mcols \<and> distinct (map column.name mcols) \<and>
           set didx \<subseteq> set midx"
  shows "tables_loop dev main mainTables devTables acc = Inr acc"
  using assms
proof (induction devTables)
  case Nil
  show ?case by simp
next
  case (Cons t rest)
  from Cons.prems obtain dcols mcols didx midx where
    r: "getTableColumns dev t = Inr dcols" "getTableColumns main t = Inr mcols"
       "getTableIndexes dev t = Inr didx" "getTableIndexes main t = Inr midx"
    and c: "set dcols \<subseteq> set mcols" "distinct (map column.name mcols)" "set didx \<subseteq> set midx"
    by auto
  from Cons.prems have m: "t \<in> set mainTables" by simp
  obtain mt mc dc mi where a: "acc = (mt, mc, dc, mi)" by (cases acc) auto
  have "check_table dev main mainTables t acc = Inr acc"
    unfolding a
    by (simp add: check_table_present [OF m r] table_missing_columns_covered [OF c(1)]
        table_different_columns_covered [OF c(1,2)] table_missing_indexes_covered [OF c(3)])
  moreover have "tables_loop dev main mainTables rest acc = Inr acc"
    using Cons.IH Cons.prems by simp
  ultimately show ?case by simp
qed

lemma in_sync_when_covered:
  assumes "reads dev A" and "reads main B" and "unique_column_names B"
    and "structural_superset B A"
  shows "checkAndReport dev main =
           Inr \<lparr>isInSync = True, missingTables = [], missingColumns = [],
                differentColumns = [], missingIndexes = []\<rparr>"
    and "checkAndReport_index_js dev main = Inr True"
proof -
  from assms(1,2) have t: "getTables dev = Inr (tables A)" "getTables main = Inr (tables B)"
    by (simp_all add: reads_def)
  from assms(4) have s: "set (tables A) \<subseteq> set (tables B)"
    by (simp add: structural_superset_def)
  have "\<exists>dcols mcols didx midx.
           getTableColumns dev t = Inr dcols \<and> getTableColumns main t = Inr mcols \<and>
           getTableIndexes dev t = Inr didx \<and> getTableIndexes main t = Inr midx \<and>
           set dcols \<subseteq> set mcols \<and> distinct (map column.name mcols) \<and>
           set didx \<subseteq> set midx" if "t \<in> set (tables A)" for t
  proof -
    from that s have tb: "t \<in> set (tables B)" by blast
    from assms(1) that have
      "getTableColumns dev t = Inr (table_columns A t)"
      "getTableIndexes dev t = Inr (table_indexes A t)"
      by (simp_all add: reads_def)
    moreover from assms(2) tb have
      "getTableColumns main t = Inr (table_columns B t)"
      "getTableIndexes main t = Inr (table_indexes B t)"
      by (simp_all add: reads_def)
    moreover from assms(3) tb have "distinct (map column.name (table_columns B t))"
      by (simp add: unique_column_names_def)
    moreover from assms(4) that have
      "set (table_columns A t) \<subseteq> set (table_columns B t)"
      "set (table_indexes A t) \<subseteq> set (table_indexes B t)"
      by (simp_all add: structural_superset_def)
    ultimately show ?thesis by blast
  qed
  then have l: "tables_loop dev main (tables B) (tables A) ([], [], [], []) = Inr ([], [], [], [])"
    using tables_loop_covered [OF s] by blast
  show "checkAndReport dev main =
           Inr \<lparr>isInSync = True, missingTables = [], missingColumns = [],
                differentColumns = [], missingIndexes = []\<rparr>"
    by (simp add: checkAndReport_def t l)
  show "checkAndReport_index_js dev main = Inr True"
    by (simp add: checkAndReport_index_js_def t l)
qed

lemma structurally_equal_superset:
  "structurally_equal A B \<Longrightarrow> structural_superset B A"
  by (simp add: structurally_equal_def structural_superset_def)

lemma checkAndReport_flag:
  assumes "checkAndReport dev main = Inr r"
  shows "isInSync r \<longleftrightarrow>
           missingTables r = [] \<and> missingColumns r = [] \<and> differentColumns r = [] \<and>
           missingIndexes r = []"
  using assms
  by (auto simp add: checkAndReport_def await_eq_Inr split: if_splits)

lemma checkAndReport_index_js_eq:
  "checkAndReport_index_js dev main =
     (case checkAndReport dev main of Inl err \<Rightarrow> Inl err | Inr r \<Rightarrow> Inr (isInSync r))"
  by (auto simp add: checkAndReport_def checkAndReport_index_js_def await_def
      split: sum.splits prod.splits)

lemma checkAndReport_found:
  assumes "checkAndReport dev main = Inr r"
    and "getTables dev = Inr devTables" and "getTables main = Inr mainTables"
  shows "missingTables r = filter (\<lambda>t. t \<notin> set mainTables) devTables"
    and "missingColumns r =
           concat (map (found_missing_columns dev main)
             (filter (\<lambda>t. t \<in> set mainTables) devTables))"
    and "differentColumns r =
           concat (map (found_different_columns dev main)
             (filter (\<lambda>t. t \<in> set mainTables) devTables))"
    and "missingIndexes r =
           concat (map (found_missing_indexes dev main)
             (filter (\<lambda>t. t \<in> set mainTables) devTables))"
proof -
  from assms obtain mt mc dc mi where
    l: "tables_loop dev main mainTables devTables ([], [], [], []) = Inr (mt, mc, dc, mi)"
    and r: "r = \<lparr>isInSync = (mt = [] \<and> mc = [] \<and> dc = [] \<and> mi = []), missingTables = mt,
                missingColumns = mc, differentColumns = dc, missingIndexes = mi\<rparr>"
    by (auto simp add: checkAndReport_def await_eq_Inr split: if_splits)
  from tables_loop_found [OF l] r
  show "missingTables r = filter (\<lambda>t. t \<notin> set mainTables) devTables"
    and "missingColumns r =
           concat (map (found_missing_columns dev main)
             (filter (\<lambda>t. t \<in> set mainTables) devTables))"
    and "differentColumns r =
           concat (map (found_different_columns dev main)
             (filter (\<lambda>t. t \<in> set mainTables) devTables))"
    and "missingIndexes r =
           concat (map (found_missing_indexes dev main)
             (filter (\<lambda>t. t \<in> set mainTables) devTables))"
    by simp_all
qed

lemma checkAndReport_reads:
  assumes "checkAndReport dev main = Inr r"
    and "getTables dev = Inr devTables" and "getTables main = Inr mainTables"
    and "tbl \<in> set devTables" and "tbl \<in> set mainTables"
  shows "\<exists>dcols mcols didx midx.
           getTableColumns dev tbl = Inr dcols \<and> getTableColumns main tbl = Inr mcols \<and>
           getTableIndexes dev tbl = Inr didx \<and> getTableIndexes main tbl = Inr midx"
proof -
  from assms(1-3) obtain acc where
    "tables_loop dev main mainTables devTables ([], [], [], []) = Inr acc"
    by (auto simp add: checkAndReport_def await_eq_Inr)
  from tables_loop_reads [OF this assms(4,5)] show ?thesis .
qed

lemma set_update_subset_insert: "set (AList.update k v al) \<subseteq> insert (k, v) (set al)"
  by (induction al) auto

lemma create_if_absent_table:
  assumes "\<forall>p \<in> set indexes. index_descriptor.table (snd p) = tableName"
  shows "\<forall>p \<in> set (create_if_absent tableName row indexes).
           index_descriptor.table (snd p) = tableName"
  using assms
    set_update_subset_insert [of "Key_name row"
      "\<lparr>index_descriptor.name = Key_name row, columns = [],
        unique = (Non_unique row = 0), table = tableName\<rparr>" indexes]
  by (auto simp add: create_if_absent_def)

lemma push_column_table:
  assumes "push_column row indexes = Inr indexes'"
    and "\<forall>p \<in> set indexes. index_descriptor.table (snd p) = tableName"
  shows "\<forall>p \<in> set indexes'. index_descriptor.table (snd p) = tableName"
proof -
  from assms(1) obtain idx where
    i: "map_of indexes (Key_name row) = Some idx"
    and r: "indexes' =
      AList.update (Key_name row) (idx\<lparr>columns := columns idx @ [Column_name row]\<rparr>) indexes"
    by (auto simp add: push_column_def split: option.splits)
  from i have "(Key_name row, idx) \<in> set indexes" by (rule map_of_SomeD)
  with assms(2) have "index_descriptor.table idx = tableName" by fastforce
  moreover have "set indexes' \<subseteq>
      insert (Key_name row, idx\<lparr>columns := columns idx @ [Column_name row]\<rparr>) (set indexes)"
    unfolding r by (rule set_update_subset_insert)
  ultimately show ?thesis using assms(2) by auto
qed

lemma index_row_step_table:
  assumes "index_row_step tableName row indexes = Inr indexes'"
    and "\<forall>p \<in> set indexes. index_descriptor.table (snd p) = tableName"
  shows "\<forall>p \<in> set indexes'. index_descriptor.table (snd p) = tableName"
proof (cases "Key_name row \<noteq> ''PRIMARY''")
  case False
  with assms show ?thesis by (simp add: index_row_step_def)
next
  case True
  with assms(1) have "push_column row (create_if_absent tableName row indexes) = Inr indexes'"
    by (simp add: index_row_step_def)
  from push_column_table [OF this create_if_absent_table [OF assms(2)]] show ?thesis .
qed

lemma index_rows_loop_table:
  assumes "index_rows_loop tableName rows indexes = Inr indexes'"
    and "\<forall>p \<in> set indexes. index_descriptor.table (snd p) = tableName"
  shows "\<forall>p \<in> set indexes'. index_descriptor.table (snd p) = tableName"
  using assms
proof (induction rows arbitrary: indexes)
  case Nil
  then show ?case by simp
next
  case (Cons row rows)
  from Cons.prems(1) obtain indexes1 where
    s: "index_row_step tableName row indexes = Inr indexes1"
    and l: "index_rows_loop tableName rows indexes1 = Inr indexes'"
    by (auto split: sum.splits)
  from Cons.IH [OF l index_row_step_table [OF s Cons.prems(2)]] show ?case .
qed

lemma set_Object_values: "set (Object_values obj) = snd ` set obj"
  by (auto simp add: Object_values_def)

lemma getTableIndexes_table:
  assumes "getTableIndexes conn tableName = Inr idxs" and "i \<in> set idxs"
  shows "index_descriptor.table i = tableName"
proof -
  from assms(1) obtain rows indexes where
    "index_rows_loop tableName rows [] = Inr indexes" and "idxs = Object_values indexes"
    by (auto simp add: getTableIndexes_def await_eq_Inr)
  with index_rows_loop_table [of tableName rows "[]" indexes] assms(2) show ?thesis
    by (auto simp add: set_Object_values)
qed

lemma found_missing_columns_table:
  "e \<in> set (found_missing_columns dev main tbl) \<Longrightarrow> missing_column.table e = tbl"
  by (auto simp add: found_missing_columns_def table_missing_columns_def split: sum.splits)

lemma found_different_columns_table:
  "e \<in> set (found_different_columns dev main tbl) \<Longrightarrow> different_column.table e = tbl"
  by (auto simp add: found_different_columns_def table_different_columns_def
      split: sum.splits option.splits if_splits)

lemma found_missing_indexes_index:
  "getTableIndexes dev tbl = Inr didx \<Longrightarrow> i \<in> set (found_missing_indexes dev main tbl) \<Longrightarrow>
   i \<in> set didx"
  by (auto simp add: found_missing_indexes_def table_missing_indexes_def split: sum.splits)

lemma found_missing_indexes_table:
  assumes "i \<in> set (found_missing_indexes dev main tbl)"
  shows "index_descriptor.table i = tbl"
proof (cases "getTableIndexes dev tbl")
  case (Inl err)
  with assms show ?thesis by (simp add: found_missing_indexes_def)
next
  case (Inr didx)
  from found_missing_indexes_index [OF Inr assms] have "i \<in> set didx" .
  with Inr show ?thesis by (rule getTableIndexes_table)
qed

lemma found_missing_columns_column:
  "getTableColumns dev tbl = Inr dcols \<Longrightarrow> e \<in> set (found_missing_columns dev main tbl) \<Longrightarrow>
   missing_column.column e \<in> set dcols"
  by (auto simp add: found_missing_columns_def table_missing_columns_def split: sum.splits)

lemma found_different_columns_column:
  "getTableColumns dev tbl = Inr dcols \<Longrightarrow> e \<in> set (found_different_columns dev main tbl) \<Longrightarrow>
   different_column.column e \<in> set dcols"
  by (auto simp add: found_different_columns_def table_different_columns_def
      split: sum.splits option.splits if_splits)

lemma filter_concat_map_own:
  assumes "distinct ts" and "t \<in> set ts"
    and "\<And>t' e. e \<in> set (f t') \<Longrightarrow> g e = t'"
  shows "filter (\<lambda>e. g e = t) (concat (map f ts)) = f t"
  using assms(1,2)
proof (induction ts)
  case Nil
  then show ?case by simp
next
  case (Cons a ts)
  show ?case
  proof (cases "a = t")
    case True
    with Cons.prems have "t \<notin> set ts" by simp
    then have "filter (\<lambda>e. g e = t) (concat (map f ts)) = []"
      using assms(3) by (auto simp add: filter_empty_conv)
    moreover have "filter (\<lambda>e. g e = t) (f t) = f t"
      using assms(3) by (simp add: filter_id_conv)
    ultimately show ?thesis using True by simp
  next
    case False
    then have "filter (\<lambda>e. g e = t) (f a) = []"
      using assms(3) by (auto simp add: filter_empty_conv)
    with False Cons show ?thesis by simp
  qed
qed

lemma checkAndReport_tables:
  assumes "checkAndReport dev main = Inr r"
  shows "\<exists>devTables mainTables. getTables dev = Inr devTables \<and> getTables main = Inr mainTables"
  using assms by (auto simp add: checkAndReport_def await_eq_Inr)

section \<open>Claims about the walk\<close>

text \<open>
  Claim C1. Whenever \<^verbatim>\<open>checkAndReport\<close> returns a result, its flag \<open>isInSync\<close> is
  true exactly when its four lists are empty, and the flag returned by the variant in
  \<^verbatim>\<open>index.js\<close> is that flag. In particular, when the reference reads as a catalog
  \<open>A\<close> and the target as a catalog \<open>B\<close> with the same tables and, for each table,
  the same columns and the same indexes (column names being unique within a table),
  the result is returned, in sync, with four empty lists.
\<close>

theorem C1_isInSync_iff_no_findings:
  "(checkAndReport dev main = Inr r \<longrightarrow>
      (isInSync r \<longleftrightarrow>
         missingTables r = [] \<and> missingColumns r = [] \<and> differentColumns r = [] \<and>
         missingIndexes r = []))
   \<and> checkAndReport_index_js dev main =
       (case checkAndReport dev main of Inl err \<Rightarrow> Inl err | Inr r \<Rightarrow> Inr (isInSync r))
   \<and> (reads dev A \<and> reads main B \<and> unique_column_names B \<and> structurally_equal A B \<longrightarrow>
        checkAndReport dev main =
          Inr \<lparr>isInSync = True, missingTables = [], missingColumns = [],
               differentColumns = [], missingIndexes = []\<rparr> \<and>
        checkAndReport_index_js dev main = Inr True)"
proof (intro conjI impI)
  assume "checkAndReport dev main = Inr r"
  then show "isInSync r \<longleftrightarrow>
         missingTables r = [] \<and> missingColumns r = [] \<and> differentColumns r = [] \<and>
         missingIndexes r = []"
    by (rule checkAndReport_flag)
next
  show "checkAndReport_index_js dev main =
       (case checkAndReport dev main of Inl err \<Rightarrow> Inl err | Inr r \<Rightarrow> Inr (isInSync r))"
    by (rule checkAndReport_index_js_eq)
next
  assume h: "reads dev A \<and> reads main B \<and> unique_column_names B \<and> structurally_equal A B"
  then have s: "structural_superset B A" by (simp add: structurally_equal_superset)
  from h have a: "reads dev A" "reads main B" "unique_column_names B" by simp_all
  show "checkAndReport dev main =
          Inr \<lparr>isInSync = True, missingTables = [], missingColumns = [],
               differentColumns = [], missingIndexes = []\<rparr>"
    by (rule in_sync_when_covered(1) [OF a s])
  show "checkAndReport_index_js dev main = Inr True"
    by (rule in_sync_when_covered(2) [OF a s])
qed

theorem C1_isInSync_iff_no_findings_witness:
  "checkAndReport dev_conn main_conn = Inr drift_result
   \<and> \<not> isInSync drift_result \<and> missingTables drift_result \<noteq> []
   \<and> checkAndReport_index_js dev_conn main_conn = Inr False
   \<and> reads dev_conn dev_catalog \<and> unique_column_names dev_catalog
   \<and> structurally_equal dev_catalog dev_catalog
   \<and> checkAndReport dev_conn dev_conn =
       Inr \<lparr>isInSync = True, missingTables = [], missingColumns = [],
            differentColumns = [], missingIndexes = []\<rparr>
   \<and> checkAndReport_index_js dev_conn dev_conn = Inr True"
proof -
  have d: "checkAndReport dev_conn main_conn = Inr drift_result" by code_simp
  have m: "missingTables drift_result \<noteq> []" by (simp add: drift_result_def)
  have r: "reads dev_conn dev_catalog" by code_simp
  have u: "unique_column_names dev_catalog" by code_simp
  have e: "structurally_equal dev_catalog dev_catalog" by (simp add: structurally_equal_def)
  from C1_isInSync_iff_no_findings [of dev_conn main_conn drift_result] d m
  have "\<not> isInSync drift_result" and "checkAndReport_index_js dev_conn main_conn = Inr False"
    by simp_all
  moreover from C1_isInSync_iff_no_findings [of dev_conn dev_conn _ dev_catalog dev_catalog] r u e
  have "checkAndReport dev_conn dev_conn =
       Inr \<lparr>isInSync = True, missingTables = [], missingColumns = [],
            differentColumns = [], missingIndexes = []\<rparr>"
    and "checkAndReport_index_js dev_conn dev_conn = Inr True"
    by blast+
  ultimately show ?thesis using d m r u e by blast
qed

text \<open>
  Claim C2. The comparison goes from the reference to the target only. Every entry of
  the four lists is an element of the reference catalog \<open>A\<close>: a table of \<open>A\<close>, a
  column of a table of \<open>A\<close>, an index of a table of \<open>A\<close>; so nothing that only the
  target has is ever listed. And when the target catalog \<open>B\<close> has every table of
  \<open>A\<close> and, for each of them, every column and every index of \<open>A\<close> unchanged
  (whatever else \<open>B\<close> has), the result is in sync with four empty lists.
\<close>

theorem C2_one_directional:
  "(reads dev A \<and> checkAndReport dev main = Inr r \<longrightarrow>
      set (missingTables r) \<subseteq> set (tables A) \<and>
      (\<forall>e \<in> set (missingColumns r).
         missing_column.table e \<in> set (tables A) \<and>
         missing_column.column e \<in> set (table_columns A (missing_column.table e))) \<and>
      (\<forall>e \<in> set (differentColumns r).
         different_column.table e \<in> set (tables A) \<and>
         different_column.column e \<in> set (table_columns A (different_column.table e))) \<and>
      (\<forall>i \<in> set (missingIndexes r).
         index_descriptor.table i \<in> set (tables A) \<and>
         i \<in> set (table_indexes A (index_descriptor.table i))))
   \<and> (reads dev A \<and> reads main B \<and> unique_column_names B \<and> structural_superset B A \<longrightarrow>
        checkAndReport dev main =
          Inr \<lparr>isInSync = True, missingTables = [], missingColumns = [],
               differentColumns = [], missingIndexes = []\<rparr> \<and>
        checkAndReport_index_js dev main = Inr True)"
proof (intro conjI impI)
  assume h: "reads dev A \<and> checkAndReport dev main = Inr r"
  then have dt: "getTables dev = Inr (tables A)"
    and rd: "\<And>t. t \<in> set (tables A) \<Longrightarrow>
               getTableColumns dev t = Inr (table_columns A t) \<and>
               getTableIndexes dev t = Inr (table_indexes A t)"
    by (simp_all add: reads_def)
  from h checkAndReport_tables obtain mainTables where mt: "getTables main = Inr mainTables"
    by blast
  from h have run: "checkAndReport dev main = Inr r" by simp
  note f = checkAndReport_found [OF run dt mt]
  show "set (missingTables r) \<subseteq> set (tables A)"
    by (auto simp add: f(1))
  show "\<forall>e \<in> set (missingColumns r).
         missing_column.table e \<in> set (tables A) \<and>
         missing_column.column e \<in> set (table_columns A (missing_column.table e))"
  proof
    fix e assume "e \<in> set (missingColumns r)"
    then obtain t where t: "t \<in> set (tables A)" and e: "e \<in> set (found_missing_columns dev main t)"
      by (auto simp add: f(2))
    from e have "missing_column.table e = t" by (rule found_missing_columns_table)
    moreover from rd [OF t] e have "missing_column.column e \<in> set (table_columns A t)"
      using found_missing_columns_column by blast
    ultimately show "missing_column.table e \<in> set (tables A) \<and>
         missing_column.column e \<in> set (table_columns A (missing_column.table e))"
      using t by simp
  qed
  show "\<forall>e \<in> set (differentColumns r).
         different_column.table e \<in> set (tables A) \<and>
         different_column.column e \<in> set (table_columns A (different_column.table e))"
  proof
    fix e assume "e \<in> set (differentColumns r)"
    then obtain t where t: "t \<in> set (tables A)" and e: "e \<in> set (found_different_columns dev main t)"
      by (auto simp add: f(3))
    from e have "different_column.table e = t" by (rule found_different_columns_table)
    moreover from rd [OF t] e have "different_column.column e \<in> set (table_columns A t)"
      using found_different_columns_column by blast
    ultimately show "different_column.table e \<in> set (tables A) \<and>
         different_column.column e \<in> set (table_columns A (different_column.table e))"
      using t by simp
  qed
  show "\<forall>i \<in> set (missingIndexes r).
         index_descriptor.table i \<in> set (tables A) \<and>
         i \<in> set (table_indexes A (index_descriptor.table i))"
  proof
    fix i assume "i \<in> set (missingIndexes r)"
    then obtain t where t: "t \<in> set (tables A)" and e: "i \<in> set (found_missing_indexes dev main t)"
      by (auto simp add: f(4))
    from e have "index_descriptor.table i = t" by (rule found_missing_indexes_table)
    moreover from rd [OF t] e have "i \<in> set (table_indexes A t)"
      using found_missing_indexes_index by blast
    ultimately show "index_descriptor.table i \<in> set (tables A) \<and>
         i \<in> set (table_indexes A (index_descriptor.table i))"
      using t by simp
  qed
next
  assume h: "reads dev A \<and> reads main B \<and> unique_column_names B \<and> structural_superset B A"
  then have a: "reads dev A" "reads main B" "unique_column_names B" "structural_superset B A"
    by simp_all
  show "checkAndReport dev main =
          Inr \<lparr>isInSync = True, missingTables = [], missingColumns = [],
               differentColumns = [], missingIndexes = []\<rparr>"
    by (rule in_sync_when_covered(1) [OF a])
  show "checkAndReport_index_js dev main = Inr True"
    by (rule in_sync_when_covered(2) [OF a])
qed

theorem C2_one_directional_witness:
  "reads dev_conn dev_catalog \<and> reads wide_conn wide_catalog
   \<and> unique_column_names wide_catalog \<and> structural_superset wide_catalog dev_catalog
   \<and> ''audit'' \<in> set (tables wide_catalog) \<and> ''audit'' \<notin> set (tables dev_catalog)
   \<and> note_col \<in> set (table_columns wide_catalog ''users'')
   \<and> note_col \<notin> set (table_columns dev_catalog ''users'')
   \<and> ix_c \<in> set (table_indexes wide_catalog ''users'')
   \<and> ix_c \<notin> set (table_indexes dev_catalog ''users'')
   \<and> checkAndReport dev_conn wide_conn =
       Inr \<lparr>isInSync = True, missingTables = [], missingColumns = [],
            differentColumns = [], missingIndexes = []\<rparr>
   \<and> checkAndReport_index_js dev_conn wide_conn = Inr True
   \<and> checkAndReport dev_conn main_conn = Inr drift_result
   \<and> set (missingTables drift_result) \<subseteq> set (tables dev_catalog)
   \<and> missingIndexes drift_result = [ix_b]
   \<and> ix_b \<in> set (table_indexes dev_catalog ''users'')"
proof -
  have r: "reads dev_conn dev_catalog" and w: "reads wide_conn wide_catalog"
    and u: "unique_column_names wide_catalog"
    and s: "structural_superset wide_catalog dev_catalog"
    by code_simp+
  have x: "''audit'' \<in> set (tables wide_catalog)" "''audit'' \<notin> set (tables dev_catalog)"
    "note_col \<in> set (table_columns wide_catalog ''users'')"
    "note_col \<notin> set (table_columns dev_catalog ''users'')"
    "ix_c \<in> set (table_indexes wide_catalog ''users'')"
    "ix_c \<notin> set (table_indexes dev_catalog ''users'')"
    by code_simp+
  have d: "checkAndReport dev_conn main_conn = Inr drift_result" by code_simp
  from C2_one_directional [of dev_conn dev_catalog wide_conn _ wide_catalog] r w u s
  have "checkAndReport dev_conn wide_conn =
       Inr \<lparr>isInSync = True, missingTables = [], missingColumns = [],
            differentColumns = [], missingIndexes = []\<rparr>"
    and "checkAndReport_index_js dev_conn wide_conn = Inr True"
    by blast+
  moreover from C2_one_directional [of dev_conn dev_catalog main_conn drift_result] r d
  have "set (missingTables drift_result) \<subseteq> set (tables dev_catalog)"
    and b: "\<forall>i \<in> set (missingIndexes drift_result).
         i \<in> set (table_indexes dev_catalog (index_descriptor.table i))"
    by blast+
  moreover have l: "missingIndexes drift_result = [ix_b]"
    by (simp add: drift_result_def)
  moreover from b l have "ix_b \<in> set (table_indexes dev_catalog ''users'')"
    by (simp add: ix_b_def)
  ultimately show ?thesis using r w u s x d by blast
qed

lemma count_list_distinct: "distinct xs \<Longrightarrow> x \<in> set xs \<Longrightarrow> count_list xs x = 1"
  by (induction xs) auto

lemma count_list_filter: "count_list (filter P xs) x = (if P x then count_list xs x else 0)"
  by (induction xs) auto

lemma table_missing_indexes_iff:
  "i \<in> set (table_missing_indexes midx didx) \<longleftrightarrow>
     i \<in> set didx \<and> \<not> (\<exists>j \<in> set midx. index_descriptor.name j = index_descriptor.name i)"
  by (auto simp add: table_missing_indexes_def image_iff)

text \<open>
  Claim C3. In a run that returns a result, over a reference listing without repeated
  table names: a reference table that the target's listing lacks has exactly one entry
  in \<open>missingTables\<close> and no entry in \<open>missingColumns\<close>, \<open>differentColumns\<close> or
  \<open>missingIndexes\<close>; a reference table that the target has is not in
  \<open>missingTables\<close>, its columns and indexes were read on both sides, and the entries
  of the three lists for this table are exactly its column and index findings.
\<close>

theorem C3_missing_table_not_descended:
  assumes "checkAndReport dev main = Inr r"
    and "getTables dev = Inr devTables" and "getTables main = Inr mainTables"
    and "distinct devTables" and "tbl \<in> set devTables"
  shows "(tbl \<notin> set mainTables \<longrightarrow>
            count_list (missingTables r) tbl = 1 \<and>
            (\<forall>e \<in> set (missingColumns r). missing_column.table e \<noteq> tbl) \<and>
            (\<forall>e \<in> set (differentColumns r). different_column.table e \<noteq> tbl) \<and>
            (\<forall>i \<in> set (missingIndexes r). index_descriptor.table i \<noteq> tbl))
       \<and> (tbl \<in> set mainTables \<longrightarrow>
            tbl \<notin> set (missingTables r) \<and>
            (\<exists>dcols mcols didx midx.
               getTableColumns dev tbl = Inr dcols \<and> getTableColumns main tbl = Inr mcols \<and>
               getTableIndexes dev tbl = Inr didx \<and> getTableIndexes main tbl = Inr midx \<and>
               filter (\<lambda>e. missing_column.table e = tbl) (missingColumns r) =
                 table_missing_columns tbl mcols dcols \<and>
               filter (\<lambda>e. different_column.table e = tbl) (differentColumns r) =
                 table_different_columns tbl mcols dcols \<and>
               filter (\<lambda>i. index_descriptor.table i = tbl) (missingIndexes r) =
                 table_missing_indexes midx didx))"
proof (intro conjI impI)
  note f = checkAndReport_found [OF assms(1-3)]
  {
    assume a: "tbl \<notin> set mainTables"
    from assms(4,5) have "count_list devTables tbl = 1"
      by (rule count_list_distinct)
    then show "count_list (missingTables r) tbl = 1"
      using a by (simp add: f(1) count_list_filter)
    show "\<forall>e \<in> set (missingColumns r). missing_column.table e \<noteq> tbl"
      using a found_missing_columns_table by (fastforce simp add: f(2))
    show "\<forall>e \<in> set (differentColumns r). different_column.table e \<noteq> tbl"
      using a found_different_columns_table by (fastforce simp add: f(3))
    show "\<forall>i \<in> set (missingIndexes r). index_descriptor.table i \<noteq> tbl"
      using a found_missing_indexes_table by (fastforce simp add: f(4))
  }
  {
    assume a: "tbl \<in> set mainTables"
    then show "tbl \<notin> set (missingTables r)" by (simp add: f(1))
    from checkAndReport_reads [OF assms(1-3) assms(5) a] obtain dcols mcols didx midx where
      rd: "getTableColumns dev tbl = Inr dcols" "getTableColumns main tbl = Inr mcols"
          "getTableIndexes dev tbl = Inr didx" "getTableIndexes main tbl = Inr midx"
      by blast
    have d: "distinct (filter (\<lambda>t. t \<in> set mainTables) devTables)"
      using assms(4) by simp
    have m: "tbl \<in> set (filter (\<lambda>t. t \<in> set mainTables) devTables)"
      using assms(5) a by simp
    have "filter (\<lambda>e. missing_column.table e = tbl) (missingColumns r) =
            found_missing_columns dev main tbl"
      unfolding f(2) using d m found_missing_columns_table by (rule filter_concat_map_own)
    moreover have "filter (\<lambda>e. different_column.table e = tbl) (differentColumns r) =
            found_different_columns dev main tbl"
      unfolding f(3) using d m found_different_columns_table by (rule filter_concat_map_own)
    moreover have "filter (\<lambda>i. index_descriptor.table i = tbl) (missingIndexes r) =
            found_missing_indexes dev main tbl"
      unfolding f(4) using d m found_missing_indexes_table by (rule filter_concat_map_own)
    ultimately show "\<exists>dcols mcols didx midx.
               getTableColumns dev tbl = Inr dcols \<and> getTableColumns main tbl = Inr mcols \<and>
               getTableIndexes dev tbl = Inr didx \<and> getTableIndexes main tbl = Inr midx \<and>
               filter (\<lambda>e. missing_column.table e = tbl) (missingColumns r) =
                 table_missing_columns tbl mcols dcols \<and>
               filter (\<lambda>e. different_column.table e = tbl) (differentColumns r) =
                 table_different_columns tbl mcols dcols \<and>
               filter (\<lambda>i. index_descriptor.table i = tbl) (missingIndexes r) =
                 table_missing_indexes midx didx"
      using rd
      by (simp add: found_missing_columns_def found_different_columns_def
          found_missing_indexes_def)
  }
qed

theorem C3_missing_table_not_descended_witness:
  "checkAndReport dev_conn main_conn = Inr drift_result
   \<and> getTables dev_conn = Inr [''orders'', ''users''] \<and> getTables main_conn = Inr [''users'']
   \<and> count_list (missingTables drift_result) ''orders'' = 1
   \<and> ''orders'' \<notin> missing_column.table ` set (missingColumns drift_result)
   \<and> ''orders'' \<notin> different_column.table ` set (differentColumns drift_result)
   \<and> ''orders'' \<notin> index_descriptor.table ` set (missingIndexes drift_result)
   \<and> ''users'' \<notin> set (missingTables drift_result)
   \<and> filter (\<lambda>e. missing_column.table e = ''users'') (missingColumns drift_result) =
       table_missing_columns ''users'' [id_col\<lparr>type := ''int(10)''\<rparr>, y_col, x_col]
         [id_col, x_col, y_col, age_col]
   \<and> filter (\<lambda>i. index_descriptor.table i = ''users'') (missingIndexes drift_result) =
       table_missing_indexes [ix_a\<lparr>columns := [''y''], unique := False\<rparr>] [ix_a, ix_b]"
proof -
  have d: "checkAndReport dev_conn main_conn = Inr drift_result"
    and t: "getTables dev_conn = Inr [''orders'', ''users'']"
    and m: "getTables main_conn = Inr [''users'']"
    by code_simp+
  have c: "getTableColumns dev_conn ''users'' = Inr [id_col, x_col, y_col, age_col]"
    "getTableColumns main_conn ''users'' = Inr [id_col\<lparr>type := ''int(10)''\<rparr>, y_col, x_col]"
    "getTableIndexes dev_conn ''users'' = Inr [ix_a, ix_b]"
    "getTableIndexes main_conn ''users'' = Inr [ix_a\<lparr>columns := [''y''], unique := False\<rparr>]"
    by code_simp+
  have dis: "distinct [''orders'', ''users'']" by simp
  have "count_list (missingTables drift_result) ''orders'' = 1
   \<and> ''orders'' \<notin> missing_column.table ` set (missingColumns drift_result)
   \<and> ''orders'' \<notin> different_column.table ` set (differentColumns drift_result)
   \<and> ''orders'' \<notin> index_descriptor.table ` set (missingIndexes drift_result)"
    using C3_missing_table_not_descended [OF d t m dis, of "''orders''"] by auto
  moreover have "''users'' \<notin> set (missingTables drift_result)
   \<and> filter (\<lambda>e. missing_column.table e = ''users'') (missingColumns drift_result) =
       table_missing_columns ''users'' [id_col\<lparr>type := ''int(10)''\<rparr>, y_col, x_col]
         [id_col, x_col, y_col, age_col]
   \<and> filter (\<lambda>i. index_descriptor.table i = ''users'') (missingIndexes drift_result) =
       table_missing_indexes [ix_a\<lparr>columns := [''y''], unique := False\<rparr>] [ix_a, ix_b]"
    using C3_missing_table_not_descended [OF d t m dis, of "''users''"] by (simp add: c)
  ultimately show ?thesis using d t m by blast
qed

text \<open>
  Claim C6. In a run that returns a result, an index of a reference table that the
  target also has is in \<open>missingIndexes\<close> exactly when no index of the target's table
  has its name. The columns and the uniqueness of the target's index play no part: an
  index with the same name and another definition is not reported (and the result has
  no list for indexes that differ).
\<close>

theorem C6_missing_index_by_name:
  assumes "checkAndReport dev main = Inr r"
    and "getTables dev = Inr devTables" and "getTables main = Inr mainTables"
    and "tbl \<in> set devTables" and "tbl \<in> set mainTables"
    and "getTableIndexes dev tbl = Inr didx" and "getTableIndexes main tbl = Inr midx"
    and "i \<in> set didx"
  shows "i \<in> set (missingIndexes r) \<longleftrightarrow>
           \<not> (\<exists>j \<in> set midx. index_descriptor.name j = index_descriptor.name i)"
proof -
  note f = checkAndReport_found(4) [OF assms(1-3)]
  have t: "index_descriptor.table i = tbl"
    using assms(6,8) by (rule getTableIndexes_table)
  have "i \<in> set (missingIndexes r) \<longleftrightarrow> i \<in> set (found_missing_indexes dev main tbl)"
  proof
    assume "i \<in> set (missingIndexes r)"
    then obtain t' where "i \<in> set (found_missing_indexes dev main t')"
      by (auto simp add: f)
    moreover from this have "index_descriptor.table i = t'"
      by (rule found_missing_indexes_table)
    ultimately show "i \<in> set (found_missing_indexes dev main tbl)"
      using t by simp
  next
    assume "i \<in> set (found_missing_indexes dev main tbl)"
    with assms(4,5) show "i \<in> set (missingIndexes r)"
      by (auto simp add: f)
  qed
  also have "\<dots> \<longleftrightarrow> \<not> (\<exists>j \<in> set midx. index_descriptor.name j = index_descriptor.name i)"
    using assms(6-8)
    by (simp add: found_missing_indexes_def table_missing_indexes_iff)
  finally show ?thesis .
qed


theorem C6_missing_index_by_name_witness:
  "checkAndReport dev_conn main_conn = Inr drift_result
   \<and> getTableIndexes dev_conn ''users'' = Inr [ix_a, ix_b]
   \<and> getTableIndexes main_conn ''users'' = Inr [ix_a\<lparr>columns := [''y''], unique := False\<rparr>]
   \<and> ix_a \<notin> set (missingIndexes drift_result)
   \<and> ix_b \<in> set (missingIndexes drift_result)"
proof -
  have d: "checkAndReport dev_conn main_conn = Inr drift_result"
    and t: "getTables dev_conn = Inr [''orders'', ''users'']"
    and m: "getTables main_conn = Inr [''users'']"
    and di: "getTableIndexes dev_conn ''users'' = Inr [ix_a, ix_b]"
    and mi: "getTableIndexes main_conn ''users'' =
               Inr [ix_a\<lparr>columns := [''y''], unique := False\<rparr>]"
    by code_simp+
  have u: "''users'' \<in> set [''orders'', ''users'']" "''users'' \<in> set [''users'']"
    by simp_all
  have "ix_a \<notin> set (missingIndexes drift_result)"
    using C6_missing_index_by_name [OF d t m u di mi, of ix_a] by (simp add: ix_a_def)
  moreover have "ix_b \<in> set (missingIndexes drift_result)"
    using C6_missing_index_by_name [OF d t m u di mi, of ix_b] by (simp add: ix_a_def ix_b_def)
  ultimately show ?thesis using d di mi by blast
qed

section \<open>Claims about the catalog reader and the entry points\<close>

text \<open>
  What \<^verbatim>\<open>getTableIndexes\<close> does on every answer of \<^verbatim>\<open>SHOW INDEX\<close>. When no index
  is named like a property of \<^verbatim>\<open>Object.prototype\<close>, it returns one descriptor for
  each index name, grouped as above (\<open>getTableIndexes_grouping\<close>); when one is, it
  throws (\<open>getTableIndexes_inherited\<close>).
\<close>

lemma index_names_snoc:
  "index_names (rows @ [row]) =
     (if Key_name row \<noteq> ''PRIMARY'' then insert (Key_name row) (index_names rows)
      else index_names rows)"
  by (auto simp add: index_names_def)

lemma filter_key_absent:
  "k \<notin> index_names rows \<Longrightarrow> k \<noteq> ''PRIMARY'' \<Longrightarrow> filter (\<lambda>r. Key_name r = k) rows = []"
  by (auto simp add: index_names_def filter_empty_conv)

lemma filter_key_present:
  "k \<in> index_names rows \<Longrightarrow> filter (\<lambda>r. Key_name r = k) rows \<noteq> []"
  by (auto simp add: index_names_def filter_empty_conv)

lemma index_of_rows_other:
  "Key_name row \<noteq> k \<Longrightarrow> index_of_rows t (rows @ [row]) k = index_of_rows t rows k"
  by (simp add: index_of_rows_def)

lemma index_of_rows_first:
  "Key_name row \<notin> index_names rows \<Longrightarrow> Key_name row \<noteq> ''PRIMARY'' \<Longrightarrow>
   index_of_rows t (rows @ [row]) (Key_name row) =
     \<lparr>index_descriptor.name = Key_name row, columns = [Column_name row],
      unique = (Non_unique row = 0), table = t\<rparr>"
  by (simp add: index_of_rows_def filter_key_absent)

lemma index_of_rows_next:
  "Key_name row \<in> index_names rows \<Longrightarrow>
   index_of_rows t (rows @ [row]) (Key_name row) =
     (index_of_rows t rows (Key_name row))
       \<lparr>columns := columns (index_of_rows t rows (Key_name row)) @ [Column_name row]\<rparr>"
  using filter_key_present [of "Key_name row" rows]
  by (cases "filter (\<lambda>r. Key_name r = Key_name row) rows") (simp_all add: index_of_rows_def)

lemma index_row_step_grouped:
  assumes "grouped t rows indexes"
    and "Key_name row \<noteq> ''PRIMARY'' \<longrightarrow> Key_name row \<notin> set object_prototype_keys"
  shows "\<exists>indexes'. index_row_step t row indexes = Inr indexes' \<and>
           grouped t (rows @ [row]) indexes'"
proof (cases "Key_name row = ''PRIMARY''")
  case True
  have "grouped t (rows @ [row]) indexes"
    using assms(1) True
    by (auto simp add: grouped_def index_names_snoc index_of_rows_other index_names_def)
  with True show ?thesis by (simp add: index_row_step_def)
next
  case False
  let ?k = "Key_name row"
  from assms(2) False have safe: "?k \<notin> set object_prototype_keys" by simp
  from assms(1) have d: "distinct (map fst indexes)"
    and m: "\<And>k. map_of indexes k =
              (if k \<in> index_names rows then Some (index_of_rows t rows k) else None)"
    by (simp_all add: grouped_def)
  show ?thesis
  proof (cases "?k \<in> index_names rows")
    case True
    then have c: "create_if_absent t row indexes = indexes"
      by (simp add: create_if_absent_def m)
    let ?new = "(index_of_rows t rows ?k)
                  \<lparr>columns := columns (index_of_rows t rows ?k) @ [Column_name row]\<rparr>"
    have s: "index_row_step t row indexes = Inr (AList.update ?k ?new indexes)"
      using False True by (simp add: index_row_step_def c push_column_def m)
    have "grouped t (rows @ [row]) (AList.update ?k ?new indexes)"
      unfolding grouped_def
    proof (intro conjI allI)
      show "distinct (map fst (AList.update ?k ?new indexes))"
        using d by (rule distinct_update)
      fix k
      show "map_of (AList.update ?k ?new indexes) k =
              (if k \<in> index_names (rows @ [row])
               then Some (index_of_rows t (rows @ [row]) k) else None)"
        using True False
        by (simp add: update_conv' m index_names_snoc index_of_rows_next index_of_rows_other)
    qed
    with s show ?thesis by blast
  next
    case absent: False
    let ?fresh = "\<lparr>index_descriptor.name = ?k, columns = [],
                    unique = (Non_unique row = 0), table = t\<rparr>"
    let ?new = "\<lparr>index_descriptor.name = ?k, columns = [Column_name row],
                  unique = (Non_unique row = 0), table = t\<rparr>"
    have c: "create_if_absent t row indexes = AList.update ?k ?fresh indexes"
      using absent safe by (simp add: create_if_absent_def m)
    have s: "index_row_step t row indexes =
               Inr (AList.update ?k ?new (AList.update ?k ?fresh indexes))"
      using False by (simp add: index_row_step_def c push_column_def update_conv')
    have "grouped t (rows @ [row]) (AList.update ?k ?new (AList.update ?k ?fresh indexes))"
      unfolding grouped_def
    proof (intro conjI allI)
      show "distinct (map fst (AList.update ?k ?new (AList.update ?k ?fresh indexes)))"
        using d by (intro distinct_update)
      fix k
      show "map_of (AList.update ?k ?new (AList.update ?k ?fresh indexes)) k =
              (if k \<in> index_names (rows @ [row])
               then Some (index_of_rows t (rows @ [row]) k) else None)"
        using absent False
        by (simp add: update_conv' m index_names_snoc index_of_rows_first index_of_rows_other)
    qed
    with s show ?thesis by blast
  qed
qed

lemma index_rows_loop_grouped:
  assumes "grouped t pre indexes"
    and "\<forall>r \<in> set rows. Key_name r \<noteq> ''PRIMARY'' \<longrightarrow> Key_name r \<notin> set object_prototype_keys"
  shows "\<exists>indexes'. index_rows_loop t rows indexes = Inr indexes' \<and>
           grouped t (pre @ rows) indexes'"
  using assms
proof (induction rows arbitrary: pre indexes)
  case Nil
  then show ?case by simp
next
  case (Cons row rows)
  from Cons.prems(2) have
    "Key_name row \<noteq> ''PRIMARY'' \<longrightarrow> Key_name row \<notin> set object_prototype_keys"
    by simp
  from index_row_step_grouped [OF Cons.prems(1) this] obtain indexes1 where
    s: "index_row_step t row indexes = Inr indexes1" and g: "grouped t (pre @ [row]) indexes1"
    by blast
  from Cons.prems(2) have
    "\<forall>r \<in> set rows. Key_name r \<noteq> ''PRIMARY'' \<longrightarrow> Key_name r \<notin> set object_prototype_keys"
    by simp
  from Cons.IH [OF g this] s show ?case by simp
qed

lemma index_row_step_inherited:
  assumes "grouped t rows indexes"
    and "Key_name row \<noteq> ''PRIMARY''" and "Key_name row \<in> set object_prototype_keys"
    and "Key_name row \<notin> index_names rows"
  shows "index_row_step t row indexes = Inl TypeError"
proof -
  from assms(1,4) have "map_of indexes (Key_name row) = None"
    by (simp add: grouped_def)
  with assms(2,3) show ?thesis
    by (simp add: index_row_step_def create_if_absent_def push_column_def)
qed

lemma index_rows_loop_inherited:
  assumes "grouped t pre indexes"
    and "\<forall>k \<in> index_names pre. k \<notin> set object_prototype_keys"
    and "\<exists>r \<in> set rows. Key_name r \<noteq> ''PRIMARY'' \<and> Key_name r \<in> set object_prototype_keys"
  shows "index_rows_loop t rows indexes = Inl TypeError"
  using assms
proof (induction rows arbitrary: pre indexes)
  case Nil
  then show ?case by simp
next
  case (Cons row rows)
  show ?case
  proof (cases "Key_name row \<noteq> ''PRIMARY'' \<and> Key_name row \<in> set object_prototype_keys")
    case True
    with Cons.prems(2) have "Key_name row \<notin> index_names pre" by blast
    with True Cons.prems(1) have "index_row_step t row indexes = Inl TypeError"
      by (simp add: index_row_step_inherited)
    then show ?thesis by simp
  next
    case False
    then have ok: "Key_name row \<noteq> ''PRIMARY'' \<longrightarrow> Key_name row \<notin> set object_prototype_keys"
      by blast
    from index_row_step_grouped [OF Cons.prems(1) ok] obtain indexes1 where
      s: "index_row_step t row indexes = Inr indexes1" and g: "grouped t (pre @ [row]) indexes1"
      by blast
    from Cons.prems(2) ok have
      n: "\<forall>k \<in> index_names (pre @ [row]). k \<notin> set object_prototype_keys"
      by (auto simp add: index_names_snoc split: if_splits)
    from Cons.prems(3) False have
      "\<exists>r \<in> set rows. Key_name r \<noteq> ''PRIMARY'' \<and> Key_name r \<in> set object_prototype_keys"
      by auto
    from Cons.IH [OF g n this] s show ?thesis by simp
  qed
qed

lemma grouped_empty: "grouped t [] []"
  by (simp add: grouped_def index_names_def)

lemma mset_Object_values: "mset (Object_values obj) = mset (map snd obj)"
proof -
  have "mset (Object_values obj) =
          image_mset snd (filter_mset (\<lambda>p. is_array_index (fst p)) (mset obj)) +
          image_mset snd (filter_mset (\<lambda>p. \<not> is_array_index (fst p)) (mset obj))"
    by (simp add: Object_values_def)
  also have "\<dots> = image_mset snd (mset obj)"
    by (simp flip: image_mset_union)
  finally show ?thesis by simp
qed

lemma grouped_values:
  assumes "grouped t rows indexes"
  shows "distinct (map index_descriptor.name (Object_values indexes))"
    and "set (Object_values indexes) = index_of_rows t rows ` index_names rows"
proof -
  from assms have d: "distinct (map fst indexes)"
    and m: "\<And>k. map_of indexes k =
              (if k \<in> index_names rows then Some (index_of_rows t rows k) else None)"
    by (simp_all add: grouped_def)
  have e: "p \<in> set indexes \<longleftrightarrow> fst p \<in> index_names rows \<and> snd p = index_of_rows t rows (fst p)"
    for p
  proof -
    have "p \<in> set indexes \<longleftrightarrow> map_of indexes (fst p) = Some (snd p)"
      using d by (cases p) simp
    then show ?thesis by (auto simp add: m)
  qed
  then have n: "map (\<lambda>p. index_descriptor.name (snd p)) indexes = map fst indexes"
    by (simp add: index_of_rows_def)
  have "mset (map index_descriptor.name (Object_values indexes)) =
          image_mset index_descriptor.name (mset (Object_values indexes))"
    by simp
  also have "\<dots> = image_mset index_descriptor.name (mset (map snd indexes))"
    by (simp only: mset_Object_values)
  also have "\<dots> = mset (map (\<lambda>p. index_descriptor.name (snd p)) indexes)"
    by (simp add: multiset.map_comp comp_def)
  also have "\<dots> = mset (map fst indexes)"
    by (simp only: n)
  finally show "distinct (map index_descriptor.name (Object_values indexes))"
    using d by (metis mset_eq_imp_distinct_iff)
  show "set (Object_values indexes) = index_of_rows t rows ` index_names rows"
    using e by (force simp add: set_Object_values image_iff)
qed

lemma getTableIndexes_grouping:
  assumes "show_index conn t = Inr rows"
    and "\<forall>r \<in> set rows. Key_name r \<noteq> ''PRIMARY'' \<longrightarrow> Key_name r \<notin> set object_prototype_keys"
  shows "\<exists>idxs. getTableIndexes conn t = Inr idxs \<and>
           distinct (map index_descriptor.name idxs) \<and>
           set idxs = index_of_rows t rows ` index_names rows"
proof -
  from index_rows_loop_grouped [OF grouped_empty assms(2), of t] obtain indexes where
    l: "index_rows_loop t rows [] = Inr indexes" and g: "grouped t rows indexes"
    by auto
  from l assms(1) have "getTableIndexes conn t = Inr (Object_values indexes)"
    by (simp add: getTableIndexes_def)
  with grouped_values [OF g] show ?thesis by simp
qed

lemma getTableIndexes_inherited:
  assumes "show_index conn t = Inr rows"
    and "\<exists>r \<in> set rows. Key_name r \<noteq> ''PRIMARY'' \<and> Key_name r \<in> set object_prototype_keys"
  shows "getTableIndexes conn t = Inl TypeError"
proof -
  have "index_rows_loop t rows [] = Inl TypeError"
    using grouped_empty _ assms(2)
    by (rule index_rows_loop_inherited) (simp add: index_names_def)
  with assms(1) show ?thesis by (simp add: getTableIndexes_def)
qed

text \<open>
  Claim C5. On the rows of the specification's example, \<^verbatim>\<open>getTableIndexes\<close> returns
  the single descriptor \<open>ix_a\<close> on \<open>x, y\<close>, unique. On the rows of a table with a
  primary key and an index named \<open>constructor\<close> it returns nothing: the test
  \<^verbatim>\<open>!indexes[row.Key_name]\<close> finds the inherited \<^verbatim>\<open>Object.prototype.constructor\<close>, no
  descriptor is created, and the push on \<^verbatim>\<open>.columns\<close> throws; the whole comparison
  fails with it.
\<close>

theorem C5_getTableIndexes_inherited_name:
  "getTableIndexes ix_a_conn ''users'' =
     Inr [\<lparr>index_descriptor.name = ''ix_a'', columns = [''x'', ''y''], unique = True,
          table = ''users''\<rparr>]
   \<and> getTableIndexes constructor_conn ''users'' = Inl TypeError
   \<and> checkAndReport constructor_conn constructor_conn = Inl TypeError"
  by code_simp

lemma main_index_js_never_ends:
  "\<not> mainDb_ended (snd (main_index_js env)) \<and> \<not> devDb_ended (snd (main_index_js env))"
  by (auto simp add: main_index_js_def try_catch_finally_def try_catch_def connect_def
      with_connections_def new_checker_def Let_def
      split: sum.splits prod.splits completion.splits option.splits)

lemma main_summary_in_sync:
  "main_summary in_sync_env =
     (Exit 0, \<lparr>mainDb = Some wide_conn, devDb = Some dev_conn,
               mainDb_ended = True, devDb_ended = True\<rparr>)"
proof -
  have "checkAndReport dev_conn wide_conn =
          Inr \<lparr>isInSync = True, missingTables = [], missingColumns = [],
               differentColumns = [], missingIndexes = []\<rparr>"
    by code_simp
  then show ?thesis
    by (simp add: main_summary_def main_summary_body_def try_catch_def connect_def
        with_connections_def disconnect_def new_checker_def in_sync_env_def)
qed

text \<open>
  Claim C9. In \<^verbatim>\<open>index.js\<close> the call of \<^verbatim>\<open>disconnect\<close> sits in the \<^verbatim>\<open>finally\<close>
  block, which is never reached, since the body and the handler both end in
  \<^verbatim>\<open>process.exit\<close>: after a successful comparison the process exits with both
  connections open and never ended; when the dev connection is refused, it exits with
  the main connection open and never ended. In the variant with the summary,
  \<^verbatim>\<open>disconnect\<close> is called on the successful path only: the same refused connection
  ends the process with the main connection open and never ended.
\<close>

theorem C9_connections_left_open:
  "main_index_js in_sync_env =
     (Exit 0, \<lparr>mainDb = Some wide_conn, devDb = Some dev_conn,
               mainDb_ended = False, devDb_ended = False\<rparr>)
   \<and> main_index_js dev_refused_env =
     (Exit 1, \<lparr>mainDb = Some main_conn, devDb = None,
               mainDb_ended = False, devDb_ended = False\<rparr>)
   \<and> main_summary dev_refused_env =
     (Exit 1, \<lparr>mainDb = Some main_conn, devDb = None,
               mainDb_ended = False, devDb_ended = False\<rparr>)"
proof -
  have "checkAndReport_index_js dev_conn wide_conn = Inr True"
    by code_simp
  then have "main_index_js in_sync_env =
     (Exit 0, \<lparr>mainDb = Some wide_conn, devDb = Some dev_conn,
               mainDb_ended = False, devDb_ended = False\<rparr>)"
    by (simp add: main_index_js_def try_catch_finally_def try_catch_def connect_def
        with_connections_def new_checker_def in_sync_env_def)
  moreover have "main_index_js dev_refused_env =
     (Exit 1, \<lparr>mainDb = Some main_conn, devDb = None,
               mainDb_ended = False, devDb_ended = False\<rparr>)"
    by (simp add: main_index_js_def try_catch_finally_def try_catch_def connect_def
        new_checker_def dev_refused_env_def)
  moreover have "main_summary dev_refused_env =
     (Exit 1, \<lparr>mainDb = Some main_conn, devDb = None,
               mainDb_ended = False, devDb_ended = False\<rparr>)"
    by (simp add: main_summary_def main_summary_body_def try_catch_def connect_def
        new_checker_def dev_refused_env_def)
  ultimately show ?thesis by simp
qed

end
